theory Spec2Isabelle
  imports Main "HOL-Library.Multiset"
begin

section \<open>Data model of the stat tracker (src/src/App.jsx)\<close>

text \<open>
  Identifiers are strings (\<^verbatim>\<open>type Id = string\<close>). The source's \<^verbatim>\<open>number\<close> counters start at
  zero and are only ever incremented by 1, 2 or 6, so they are natural numbers here; an
  array holds fewer than \<open>2^32\<close> events, which keeps every counter far below \<open>2^53\<close>, where
  the source's doubles are exact. Optional fields (\<^verbatim>\<open>jersey?\<close>, \<^verbatim>\<open>receiverId?\<close>, ...) are
  \<open>option\<close> values, \<open>None\<close> standing for a field that is not there. Record fields named
  \<^verbatim>\<open>id\<close>, \<^verbatim>\<open>type\<close>, \<^verbatim>\<open>note\<close> and \<^verbatim>\<open>notes\<close> in the source carry a suffix here.
\<close>

type_synonym Id = string

record Player =
  id_p :: Id
  name :: string
  jersey :: "string option"
  position :: "string option"

datatype RuleSet = NEXT_LEVEL | NFL_FLAG | FARM_LEAGUE

record RuleConfig =
  allowPatReturn :: bool
  patReturnPoints :: nat

fun RULESET_CONFIG :: "RuleSet \<Rightarrow> RuleConfig" where
  "RULESET_CONFIG NEXT_LEVEL = \<lparr>allowPatReturn = False, patReturnPoints = 0\<rparr>"
| "RULESET_CONFIG NFL_FLAG = \<lparr>allowPatReturn = False, patReturnPoints = 0\<rparr>"
| "RULESET_CONFIG FARM_LEAGUE = \<lparr>allowPatReturn = True, patReturnPoints = 2\<rparr>"

text \<open>
  At run time the \<^verbatim>\<open>type\<close> of an event is a string that the aggregation switches on; the
  TypeScript union only names the fifteen tags the switch knows. The field stays a string
  here so that the \<^verbatim>\<open>default\<close> branch of the switch is part of the model.
\<close>

record StatEvent =
  id_e :: Id
  ts :: int
  type_e :: string
  playerId :: Id
  receiverId :: "Id option"
  yards :: "int option"
  note_e :: "string option"

record Game =
  id_g :: Id
  opponent :: string
  dateISO :: string
  ruleSet :: RuleSet
  notes_g :: "string option"
  events :: "StatEvent list"

record PlayerStats =
  passAtt :: nat
  passComp :: nat
  passTD :: nat
  intThrown :: nat
  rushAtt :: nat
  rushTD :: nat
  rec :: nat
  recTD :: nat
  defInt :: nat
  sacks :: nat
  flagPulls :: nat
  defTD :: nat
  xp1 :: nat
  xp2 :: nat
  patRet2 :: nat
  points :: nat

definition emptyStats :: PlayerStats where
  "emptyStats = \<lparr>passAtt = 0, passComp = 0, passTD = 0, intThrown = 0, rushAtt = 0,
     rushTD = 0, rec = 0, recTD = 0, defInt = 0, sacks = 0, flagPulls = 0, defTD = 0,
     xp1 = 0, xp2 = 0, patRet2 = 0, points = 0\<rparr>"

record Ui =
  selectedGameId :: "Id option"

record Store =
  players :: "Player list"
  games :: "Game list"
  ui :: Ui

section \<open>The aggregation engine: computeStats\<close>

text \<open>
  \<^verbatim>\<open>byId\<close> starts as the plain object \<^verbatim>\<open>{}\<close>, so it has own properties and a prototype, and
  \<^verbatim>\<open>byId[pid]\<close> reads through the prototype chain. The own properties are buckets, each a
  fresh object stored under exactly one key. The prototype is \<^verbatim>\<open>Object.prototype\<close> until
  \<^verbatim>\<open>byId["__proto__"] = emptyStats()\<close> runs: that assignment calls the inherited setter and
  makes the new bucket the prototype of \<^verbatim>\<open>byId\<close> instead of storing an own property. The
  model keeps the own properties and the bucket that replaced the prototype, if any
  (\<open>None\<close> is \<^verbatim>\<open>Object.prototype\<close>).
\<close>

type_synonym Buckets = "Id \<rightharpoonup> PlayerStats"

record ById =
  own :: Buckets
  proto :: "PlayerStats option"

definition emptyById :: ById where
  "emptyById = \<lparr>own = Map.empty, proto = None\<rparr>"

datatype jsError = SyntaxError | TypeError

text \<open>
  The names a plain object inherits from \<^verbatim>\<open>Object.prototype\<close> in a standard environment.
  All of them are functions, except the accessor \<^verbatim>\<open>__proto__\<close>, which returns the prototype.
\<close>

definition objectPrototypeKeys :: "string list" where
  "objectPrototypeKeys = [''constructor'', ''__defineGetter__'', ''__defineSetter__'',
     ''hasOwnProperty'', ''__lookupGetter__'', ''__lookupSetter__'', ''isPrototypeOf'',
     ''propertyIsEnumerable'', ''toString'', ''valueOf'', ''__proto__'', ''toLocaleString'']"

text \<open>The own property \<open>k\<close> of a bucket: one of its sixteen counters, or nothing.\<close>

definition counter :: "string \<Rightarrow> PlayerStats \<Rightarrow> nat option" where
  "counter k b =
    (if k = ''passAtt'' then Some (passAtt b)
     else if k = ''passComp'' then Some (passComp b)
     else if k = ''passTD'' then Some (passTD b)
     else if k = ''intThrown'' then Some (intThrown b)
     else if k = ''rushAtt'' then Some (rushAtt b)
     else if k = ''rushTD'' then Some (rushTD b)
     else if k = ''rec'' then Some (rec b)
     else if k = ''recTD'' then Some (recTD b)
     else if k = ''defInt'' then Some (defInt b)
     else if k = ''sacks'' then Some (sacks b)
     else if k = ''flagPulls'' then Some (flagPulls b)
     else if k = ''defTD'' then Some (defTD b)
     else if k = ''xp1'' then Some (xp1 b)
     else if k = ''xp2'' then Some (xp2 b)
     else if k = ''patRet2'' then Some (patRet2 b)
     else if k = ''points'' then Some (points b)
     else None)"

text \<open>
  What \<^verbatim>\<open>byId[pid]\<close> evaluates to: the own bucket stored under \<open>pid\<close> (a reference is the
  key, so two references alias exactly when the keys are equal); the bucket that is the
  prototype; an object that is not part of \<^verbatim>\<open>byId\<close> at all (\<^verbatim>\<open>Object.prototype\<close> or one of its
  functions); a number, namely a counter of the prototype bucket; or \<^verbatim>\<open>undefined\<close>.
\<close>

datatype jsValue = OwnBucket Id | ProtoBucket | Foreign | Number nat | Undefined

definition getById :: "ById \<Rightarrow> Id \<Rightarrow> jsValue" where
  "getById byId pid =
    (case own byId pid of
       Some _ \<Rightarrow> OwnBucket pid
     | None \<Rightarrow>
        (case (case proto byId of None \<Rightarrow> None | Some p \<Rightarrow> counter pid p) of
           Some n \<Rightarrow> Number n
         | None \<Rightarrow>
            if pid = ''__proto__''
            then (case proto byId of None \<Rightarrow> Foreign | Some _ \<Rightarrow> ProtoBucket)
            else if pid \<in> set objectPrototypeKeys then Foreign
            else Undefined))"

fun truthyValue :: "jsValue \<Rightarrow> bool" where
  "truthyValue (Number n) = (n \<noteq> 0)"
| "truthyValue Undefined = False"
| "truthyValue _ = True"

text \<open>
  \<^verbatim>\<open>byId[pid] = emptyStats()\<close>: the key \<^verbatim>\<open>__proto__\<close> replaces the prototype; any other key
  becomes an own property, also when a property of that name is inherited.
\<close>

definition setById :: "ById \<Rightarrow> Id \<Rightarrow> ById" where
  "setById byId pid =
    (if pid = ''__proto__'' then byId\<lparr>proto := Some emptyStats\<rparr>
     else byId\<lparr>own := (own byId)(pid \<mapsto> emptyStats)\<rparr>)"

text \<open>
  \<^verbatim>\<open>const ensure = (pid) => { if (!byId[pid]) byId[pid] = emptyStats(); return byId[pid]; }\<close>
  returns the changed object and the value it hands back.
\<close>

definition ensure :: "ById \<Rightarrow> Id \<Rightarrow> ById \<times> jsValue" where
  "ensure byId pid =
    (if truthyValue (getById byId pid) then (byId, getById byId pid)
     else (setById byId pid, getById (setById byId pid) pid))"

text \<open>
  An update \<^verbatim>\<open>s.field += n\<close> through the value \<open>s\<close> that \<^verbatim>\<open>ensure\<close> returned. The file is an ES
  module, hence strict code: assigning a property of a number throws a TypeError. A write
  to an object outside \<^verbatim>\<open>byId\<close> stores \<^verbatim>\<open>NaN\<close> there and leaves \<^verbatim>\<open>byId\<close> as it is; those
  objects are not tracked, since \<^verbatim>\<open>NaN\<close> is falsy like \<^verbatim>\<open>undefined\<close> and so never changes what
  a later \<^verbatim>\<open>ensure\<close> does.
\<close>

definition addTo :: "jsValue \<Rightarrow> (PlayerStats \<Rightarrow> PlayerStats) \<Rightarrow> ById \<Rightarrow> jsError + ById" where
  "addTo s f byId =
    (case s of
       OwnBucket k \<Rightarrow>
         Inr (byId\<lparr>own := (case own byId k of None \<Rightarrow> own byId
                              | Some b \<Rightarrow> (own byId)(k \<mapsto> f b))\<rparr>)
     | ProtoBucket \<Rightarrow> Inr (byId\<lparr>proto := map_option f (proto byId)\<rparr>)
     | Foreign \<Rightarrow> Inr byId
     | Number n \<Rightarrow> Inl TypeError
     | Undefined \<Rightarrow> Inl TypeError)"

text \<open>Statements in sequence: an exception ends the call.\<close>

definition bindE :: "jsError + 'a \<Rightarrow> ('a \<Rightarrow> jsError + 'b) \<Rightarrow> jsError + 'b" where
  "bindE x f = (case x of Inl err \<Rightarrow> Inl err | Inr a \<Rightarrow> f a)"

fun addAll :: "jsValue \<Rightarrow> (PlayerStats \<Rightarrow> PlayerStats) list \<Rightarrow> ById \<Rightarrow> jsError + ById" where
  "addAll s [] byId = Inr byId"
| "addAll s (f # fs) byId = bindE (addTo s f byId) (addAll s fs)"

text \<open>
  \<^verbatim>\<open>if (e.receiverId)\<close>: a missing receiver and the empty string are both falsy.
\<close>

fun truthyId :: "Id option \<Rightarrow> bool" where
  "truthyId None = False"
| "truthyId (Some r) = (r \<noteq> [])"

text \<open>The receiver's part of the cases \<^verbatim>\<open>PASS_COMP\<close> and \<^verbatim>\<open>PASS_TD\<close>.\<close>

definition creditRec :: "StatEvent \<Rightarrow> ById \<Rightarrow> jsError + ById" where
  "creditRec e byId =
     (case receiverId e of
        None \<Rightarrow> Inr byId
      | Some rid \<Rightarrow>
          if rid = [] then Inr byId
          else (case ensure byId rid of
                  (byId', r) \<Rightarrow> addAll r [\<lambda>x. x\<lparr>rec := rec x + 1\<rparr>] byId'))"

definition creditRecTD :: "StatEvent \<Rightarrow> ById \<Rightarrow> jsError + ById" where
  "creditRecTD e byId =
     (case receiverId e of
        None \<Rightarrow> Inr byId
      | Some rid \<Rightarrow>
          if rid = [] then Inr byId
          else (case ensure byId rid of
                  (byId', r) \<Rightarrow>
                    addAll r [\<lambda>x. x\<lparr>rec := rec x + 1\<rparr>, \<lambda>x. x\<lparr>recTD := recTD x + 1\<rparr>,
                              \<lambda>x. x\<lparr>points := points x + 6\<rparr>] byId'))"

text \<open>
  One iteration of the event loop: \<^verbatim>\<open>const s = ensure(e.playerId)\<close>, then the switch, each
  case with its updates of \<open>s\<close> in the order of the source.
\<close>

definition applyEvent :: "ById \<Rightarrow> StatEvent \<Rightarrow> jsError + ById" where
  "applyEvent byId0 e =
    (case ensure byId0 (playerId e) of
      (byId, s) \<Rightarrow>
       (let t = type_e e in
        if t = ''PASS_ATT'' then addAll s [\<lambda>x. x\<lparr>passAtt := passAtt x + 1\<rparr>] byId
        else if t = ''PASS_COMP'' then
          bindE (addAll s [\<lambda>x. x\<lparr>passAtt := passAtt x + 1\<rparr>,
                           \<lambda>x. x\<lparr>passComp := passComp x + 1\<rparr>] byId)
                (creditRec e)
        else if t = ''PASS_TD'' then
          bindE (addAll s [\<lambda>x. x\<lparr>passAtt := passAtt x + 1\<rparr>,
                           \<lambda>x. x\<lparr>passComp := passComp x + 1\<rparr>,
                           \<lambda>x. x\<lparr>passTD := passTD x + 1\<rparr>,
                           \<lambda>x. x\<lparr>points := points x + 6\<rparr>] byId)
                (creditRecTD e)
        else if t = ''INT_THROWN'' then
          addAll s [\<lambda>x. x\<lparr>passAtt := passAtt x + 1\<rparr>,
                    \<lambda>x. x\<lparr>intThrown := intThrown x + 1\<rparr>] byId
        else if t = ''RUSH_ATT'' then addAll s [\<lambda>x. x\<lparr>rushAtt := rushAtt x + 1\<rparr>] byId
        else if t = ''RUSH_TD'' then
          addAll s [\<lambda>x. x\<lparr>rushAtt := rushAtt x + 1\<rparr>, \<lambda>x. x\<lparr>rushTD := rushTD x + 1\<rparr>,
                    \<lambda>x. x\<lparr>points := points x + 6\<rparr>] byId
        else if t = ''REC'' then addAll s [\<lambda>x. x\<lparr>rec := rec x + 1\<rparr>] byId
        else if t = ''REC_TD'' then
          addAll s [\<lambda>x. x\<lparr>rec := rec x + 1\<rparr>, \<lambda>x. x\<lparr>recTD := recTD x + 1\<rparr>,
                    \<lambda>x. x\<lparr>points := points x + 6\<rparr>] byId
        else if t = ''DEF_INT'' then addAll s [\<lambda>x. x\<lparr>defInt := defInt x + 1\<rparr>] byId
        else if t = ''SACK'' then addAll s [\<lambda>x. x\<lparr>sacks := sacks x + 1\<rparr>] byId
        else if t = ''FLAG_PULL'' then addAll s [\<lambda>x. x\<lparr>flagPulls := flagPulls x + 1\<rparr>] byId
        else if t = ''DEF_TD'' then
          addAll s [\<lambda>x. x\<lparr>defTD := defTD x + 1\<rparr>, \<lambda>x. x\<lparr>points := points x + 6\<rparr>] byId
        else if t = ''XP_1'' then
          addAll s [\<lambda>x. x\<lparr>xp1 := xp1 x + 1\<rparr>, \<lambda>x. x\<lparr>points := points x + 1\<rparr>] byId
        else if t = ''XP_2'' then
          addAll s [\<lambda>x. x\<lparr>xp2 := xp2 x + 1\<rparr>, \<lambda>x. x\<lparr>points := points x + 2\<rparr>] byId
        else if t = ''PAT_RET_2'' then
          addAll s [\<lambda>x. x\<lparr>patRet2 := patRet2 x + 1\<rparr>, \<lambda>x. x\<lparr>points := points x + 2\<rparr>] byId
        else Inr byId))"

text \<open>\<^verbatim>\<open>for (const p of players) byId[p.id] = emptyStats()\<close>\<close>

definition seed :: "Player list \<Rightarrow> ById" where
  "seed ps = foldl (\<lambda>byId p. setById byId (id_p p)) emptyById ps"

text \<open>\<^verbatim>\<open>for (const e of events) { ... }\<close>, ended by the first exception.\<close>

fun runEvents :: "ById \<Rightarrow> StatEvent list \<Rightarrow> jsError + ById" where
  "runEvents byId [] = Inr byId"
| "runEvents byId (e # es) = bindE (applyEvent byId e) (\<lambda>byId'. runEvents byId' es)"

definition computeStats :: "Player list \<Rightarrow> StatEvent list \<Rightarrow> jsError + ById" where
  "computeStats ps es = runEvents (seed ps) es"

section \<open>Store operations\<close>

text \<open>
  The component keeps the store in React state; every handler replaces the whole value
  (\<^verbatim>\<open>setStore((s) => ...)\<close>), so a handler is a function from the old store to the new one.
  \<^verbatim>\<open>e.receiverId !== id\<close> holds for an event without a receiver.
\<close>

definition deletePlayer :: "Id \<Rightarrow> Store \<Rightarrow> Store" where
  "deletePlayer i s =
     s\<lparr>players := filter (\<lambda>p. id_p p \<noteq> i) (players s),
       games := map (\<lambda>g. g\<lparr>events :=
                  filter (\<lambda>e. playerId e \<noteq> i \<and> receiverId e \<noteq> Some i) (events g)\<rparr>)
                  (games s)\<rparr>"

definition selectedGame :: "Store \<Rightarrow> Game option" where
  "selectedGame s = find (\<lambda>g. Some (id_g g) = selectedGameId (ui s)) (games s)"

text \<open>Without a selected game the box score is computed from \<^verbatim>\<open>{}\<close>.\<close>

definition statsByPlayer :: "Store \<Rightarrow> jsError + ById" where
  "statsByPlayer s =
     (case selectedGame s of
        None \<Rightarrow> Inr emptyById
      | Some g \<Rightarrow> computeStats (players s) (events g))"

section \<open>Loading and importing a document\<close>

text \<open>
  \<^verbatim>\<open>loadStore\<close> and \<^verbatim>\<open>importJSON\<close> work on whatever \<^verbatim>\<open>JSON.parse\<close> returns; the cast
  \<^verbatim>\<open>as Store\<close> checks nothing. A parsed document is a JSON value. An object is the list of
  its own properties (keys distinct; the order of the list is not meant to model the
  enumeration order). Numbers only matter here through being zero or not and are
  integers. \<open>None\<close> stands for \<^verbatim>\<open>undefined\<close> where a property is read.
\<close>

datatype json =
  JNull | JBool bool | JNum int | JStr string | JArr "json list" | JObj "(string \<times> json) list"

text \<open>
  Reading a property \<open>k\<close> of a value that is not \<^verbatim>\<open>null\<close>, for the keys the source reads
  (\<^verbatim>\<open>players\<close>, \<^verbatim>\<open>games\<close>, \<^verbatim>\<open>ui\<close>, \<^verbatim>\<open>ruleSet\<close>, \<^verbatim>\<open>events\<close>): only an object can have them.
\<close>

fun getProp :: "json \<Rightarrow> string \<Rightarrow> json option" where
  "getProp (JObj kvs) k = map_of kvs k"
| "getProp _ k = None"

text \<open>Truthiness, as the operator \<^verbatim>\<open>||\<close> sees it.\<close>

fun truthy :: "json option \<Rightarrow> bool" where
  "truthy None = False"
| "truthy (Some JNull) = False"
| "truthy (Some (JBool b)) = b"
| "truthy (Some (JNum n)) = (n \<noteq> 0)"
| "truthy (Some (JStr s)) = (s \<noteq> [])"
| "truthy (Some (JArr _)) = True"
| "truthy (Some (JObj _)) = True"

fun digits :: "nat \<Rightarrow> string" where
  "digits n = (if n < 10 then [char_of (48 + n)] else digits (n div 10) @ [char_of (48 + n mod 10)])"

text \<open>
  The own enumerable properties that the spread \<^verbatim>\<open>{...g}\<close> copies: the fields of an
  object, the indexed elements of an array, the indexed characters of a string, nothing
  for \<^verbatim>\<open>null\<close>, a boolean or a number.
\<close>

fun ownProps :: "json \<Rightarrow> (string \<times> json) list" where
  "ownProps (JObj kvs) = kvs"
| "ownProps (JArr xs) = map (\<lambda>i. (digits i, xs ! i)) [0..<length xs]"
| "ownProps (JStr s) = map (\<lambda>i. (digits i, JStr [s ! i])) [0..<length s]"
| "ownProps _ = []"

text \<open>A property written in an object literal after a spread: replaced in place or added.\<close>

fun setProp :: "string \<Rightarrow> json \<Rightarrow> (string \<times> json) list \<Rightarrow> (string \<times> json) list" where
  "setProp k v [] = [(k, v)]"
| "setProp k v ((k', v') # kvs) = (if k' = k then (k, v) # kvs else (k', v') # setProp k v kvs)"

text \<open>
  The callback of \<^verbatim>\<open>parsed.games.map\<close>:
  \<^verbatim>\<open>{...g, ruleSet: g?.ruleSet || "NFL_FLAG", events: Array.isArray(g?.events) ? g.events : []}\<close>
\<close>

definition guardGame :: "json \<Rightarrow> json" where
  "guardGame g =
     JObj (setProp ''events''
             (case getProp g ''events'' of Some (JArr es) \<Rightarrow> JArr es | _ \<Rightarrow> JArr [])
          (setProp ''ruleSet''
             (case getProp g ''ruleSet'' of
                Some v \<Rightarrow> if truthy (Some v) then v else JStr ''NFL_FLAG''
              | None \<Rightarrow> JStr ''NFL_FLAG'')
          (ownProps g)))"

record RawStore =
  players_r :: "json list"
  games_r :: "json list"
  ui_r :: json

definition emptyStore :: RawStore where
  "emptyStore = \<lparr>players_r = [], games_r = [], ui_r = JObj []\<rparr>"

text \<open>
  The shape guards, written out identically in \<^verbatim>\<open>loadStore\<close> and in \<^verbatim>\<open>importJSON\<close>. Reading
  \<^verbatim>\<open>parsed.players\<close> throws a TypeError when the document is \<^verbatim>\<open>null\<close>.
\<close>

definition shapeGuards :: "json \<Rightarrow> jsError + RawStore" where
  "shapeGuards parsed =
     (if parsed = JNull then Inl TypeError
      else Inr \<lparr>players_r = (case getProp parsed ''players'' of Some (JArr ps) \<Rightarrow> ps | _ \<Rightarrow> []),
                games_r = (case getProp parsed ''games'' of
                             Some (JArr gs) \<Rightarrow> map guardGame gs | _ \<Rightarrow> []),
                ui_r = (case getProp parsed ''ui'' of
                          None \<Rightarrow> JObj [] | Some JNull \<Rightarrow> JObj [] | Some u \<Rightarrow> u)\<rparr>)"

text \<open>
  \<^verbatim>\<open>JSON.parse\<close> is a parameter: it returns the parsed value or throws a SyntaxError
  (\<open>None\<close>). \<^verbatim>\<open>loadStore\<close> reads the stored text (\<open>None\<close> when the key is not in the storage)
  inside a \<^verbatim>\<open>try\<close> whose \<^verbatim>\<open>catch\<close> returns the empty store; \<^verbatim>\<open>importJSON\<close> has no \<^verbatim>\<open>try\<close>,
  so an exception leaves it before \<^verbatim>\<open>setStore\<close> is called; its result is the store it
  sets, or the error.
\<close>

definition loadStore :: "(string \<Rightarrow> json option) \<Rightarrow> string option \<Rightarrow> RawStore" where
  "loadStore parse raw =
     (case raw of
        None \<Rightarrow> emptyStore
      | Some t \<Rightarrow>
          if t = [] then emptyStore
          else (case parse t of
                  None \<Rightarrow> emptyStore
                | Some parsed \<Rightarrow>
                    (case shapeGuards parsed of Inl _ \<Rightarrow> emptyStore | Inr s \<Rightarrow> s)))"

definition importJSON :: "(string \<Rightarrow> json option) \<Rightarrow> string \<Rightarrow> jsError + RawStore" where
  "importJSON parse t =
     (case parse t of None \<Rightarrow> Inl SyntaxError | Some parsed \<Rightarrow> shapeGuards parsed)"

section \<open>The aggregation of the specification\<close>

text \<open>
  The table of section 4.1 of the specification, as data: the effect of an event type on
  the primary actor and on the receiver, each a bucket of increments, and the point-wise
  sum of buckets. Section 4.2 aggregates with it over a mapping from player ids to
  buckets: a zero bucket for every player of the roster, then the deltas of every event.
  These definitions follow the specification; the lemmas below relate them to
  \<^verbatim>\<open>computeStats\<close>.
\<close>

definition addStats :: "PlayerStats \<Rightarrow> PlayerStats \<Rightarrow> PlayerStats" where
  "addStats a b = \<lparr>passAtt = passAtt a + passAtt b, passComp = passComp a + passComp b,
     passTD = passTD a + passTD b, intThrown = intThrown a + intThrown b,
     rushAtt = rushAtt a + rushAtt b, rushTD = rushTD a + rushTD b, rec = rec a + rec b,
     recTD = recTD a + recTD b, defInt = defInt a + defInt b, sacks = sacks a + sacks b,
     flagPulls = flagPulls a + flagPulls b, defTD = defTD a + defTD b, xp1 = xp1 a + xp1 b,
     xp2 = xp2 a + xp2 b, patRet2 = patRet2 a + patRet2 b, points = points a + points b\<rparr>"

definition primaryDelta :: "string \<Rightarrow> PlayerStats" where
  "primaryDelta t =
    (if t = ''PASS_ATT'' then emptyStats\<lparr>passAtt := 1\<rparr>
     else if t = ''PASS_COMP'' then emptyStats\<lparr>passAtt := 1, passComp := 1\<rparr>
     else if t = ''PASS_TD'' then emptyStats\<lparr>passAtt := 1, passComp := 1, passTD := 1, points := 6\<rparr>
     else if t = ''INT_THROWN'' then emptyStats\<lparr>passAtt := 1, intThrown := 1\<rparr>
     else if t = ''RUSH_ATT'' then emptyStats\<lparr>rushAtt := 1\<rparr>
     else if t = ''RUSH_TD'' then emptyStats\<lparr>rushAtt := 1, rushTD := 1, points := 6\<rparr>
     else if t = ''REC'' then emptyStats\<lparr>rec := 1\<rparr>
     else if t = ''REC_TD'' then emptyStats\<lparr>rec := 1, recTD := 1, points := 6\<rparr>
     else if t = ''DEF_INT'' then emptyStats\<lparr>defInt := 1\<rparr>
     else if t = ''SACK'' then emptyStats\<lparr>sacks := 1\<rparr>
     else if t = ''FLAG_PULL'' then emptyStats\<lparr>flagPulls := 1\<rparr>
     else if t = ''DEF_TD'' then emptyStats\<lparr>defTD := 1, points := 6\<rparr>
     else if t = ''XP_1'' then emptyStats\<lparr>xp1 := 1, points := 1\<rparr>
     else if t = ''XP_2'' then emptyStats\<lparr>xp2 := 1, points := 2\<rparr>
     else if t = ''PAT_RET_2'' then emptyStats\<lparr>patRet2 := 1, points := 2\<rparr>
     else emptyStats)"

definition secondaryDelta :: "string \<Rightarrow> PlayerStats" where
  "secondaryDelta t =
    (if t = ''PASS_COMP'' then emptyStats\<lparr>rec := 1\<rparr>
     else if t = ''PASS_TD'' then emptyStats\<lparr>rec := 1, recTD := 1, points := 6\<rparr>
     else emptyStats)"

text \<open>
  The receiver an event credits: only a completion or a touchdown pass has one, and only
  when \<^verbatim>\<open>receiverId\<close> is there and not empty.
\<close>

definition receiverRef :: "StatEvent \<Rightarrow> Id option" where
  "receiverRef e =
    (if (type_e e = ''PASS_COMP'' \<or> type_e e = ''PASS_TD'') \<and> truthyId (receiverId e)
     then receiverId e else None)"

text \<open>The bucket of a player in a mapping, the zero bucket when there is none.\<close>

definition bucketOr :: "Buckets \<Rightarrow> Id \<Rightarrow> PlayerStats" where
  "bucketOr m pid = (case m pid of None \<Rightarrow> emptyStats | Some s \<Rightarrow> s)"

text \<open>Adding a delta to the bucket of a player, a missing bucket counting as zero.\<close>

definition credit :: "Id \<Rightarrow> PlayerStats \<Rightarrow> Buckets \<Rightarrow> Buckets" where
  "credit pid d m = m(pid \<mapsto> addStats (bucketOr m pid) d)"

text \<open>The effect of one event, and the aggregate of a log over a roster.\<close>

definition applyDelta :: "Buckets \<Rightarrow> StatEvent \<Rightarrow> Buckets" where
  "applyDelta m e =
     (case receiverRef e of
        None \<Rightarrow> credit (playerId e) (primaryDelta (type_e e)) m
      | Some r \<Rightarrow> credit r (secondaryDelta (type_e e))
                   (credit (playerId e) (primaryDelta (type_e e)) m))"

definition rosterBuckets :: "Player list \<Rightarrow> Buckets" where
  "rosterBuckets ps = foldl (\<lambda>m p. m(id_p p \<mapsto> emptyStats)) Map.empty ps"

definition aggregate :: "Player list \<Rightarrow> StatEvent list \<Rightarrow> Buckets" where
  "aggregate ps es = foldl applyDelta (rosterBuckets ps) es"

text \<open>
  The ids an event refers to, the delta of one event for one player, and the sum of a
  list of deltas.
\<close>

definition mentions :: "StatEvent \<Rightarrow> Id \<Rightarrow> bool" where
  "mentions e pid = (playerId e = pid \<or> receiverRef e = Some pid)"

definition deltaFor :: "Id \<Rightarrow> StatEvent \<Rightarrow> PlayerStats" where
  "deltaFor pid e =
     addStats (if playerId e = pid then primaryDelta (type_e e) else emptyStats)
              (if receiverRef e = Some pid then secondaryDelta (type_e e) else emptyStats)"

primrec sumStats :: "PlayerStats list \<Rightarrow> PlayerStats" where
  "sumStats [] = emptyStats"
| "sumStats (d # ds) = addStats d (sumStats ds)"

text \<open>The tags the switch of \<^verbatim>\<open>computeStats\<close> has a case for.\<close>

definition eventTypes :: "string list" where
  "eventTypes = [''PASS_ATT'', ''PASS_COMP'', ''PASS_TD'', ''INT_THROWN'', ''RUSH_ATT'',
     ''RUSH_TD'', ''REC'', ''REC_TD'', ''DEF_INT'', ''SACK'', ''FLAG_PULL'', ''DEF_TD'',
     ''XP_1'', ''XP_2'', ''PAT_RET_2'']"

text \<open>
  A roster and a log are plain when no id in them, of a player or of a receiver, is a name
  inherited from \<^verbatim>\<open>Object.prototype\<close>. Then no lookup of \<^verbatim>\<open>computeStats\<close> reaches the
  prototype chain.
\<close>

definition plainIds :: "Player list \<Rightarrow> StatEvent list \<Rightarrow> bool" where
  "plainIds ps es =
     ((\<forall>p \<in> set ps. id_p p \<notin> set objectPrototypeKeys)
      \<and> (\<forall>e \<in> set es. playerId e \<notin> set objectPrototypeKeys
            \<and> (\<forall>r. receiverId e = Some r \<longrightarrow> r \<notin> set objectPrototypeKeys)))"

text \<open>An event with the given type, player and receiver, for the scenarios.\<close>

definition mkEvent :: "string \<Rightarrow> Id \<Rightarrow> Id option \<Rightarrow> StatEvent" where
  "mkEvent t p r = \<lparr>id_e = ''e'', ts = 0, type_e = t, playerId = p, receiverId = r,
     yards = None, note_e = None\<rparr>"

text \<open>A player, a game and a store with one selected game, for the scenarios.\<close>

definition exPlayer :: "Id \<Rightarrow> Player" where
  "exPlayer i = \<lparr>id_p = i, name = i, jersey = None, position = None\<rparr>"

definition exGame :: "RuleSet \<Rightarrow> StatEvent list \<Rightarrow> Game" where
  "exGame r es = \<lparr>id_g = ''g1'', opponent = ''Owls'', dateISO = ''2024-05-01'', ruleSet = r,
     notes_g = None, events = es\<rparr>"

definition exStore :: "Player list \<Rightarrow> RuleSet \<Rightarrow> StatEvent list \<Rightarrow> Store" where
  "exStore ps r es = \<lparr>players = ps, games = [exGame r es], ui = \<lparr>selectedGameId = Some ''g1''\<rparr>\<rparr>"

text \<open>
  The points an event contributes to the player \<open>pid\<close>: 6 for a touchdown pass as passer
  and 6 as its receiver, 6 for a rushing, receiving or defensive touchdown, 1 and 2 for
  the conversions, 2 for the PAT return. \<open>statedPoints\<close> takes the receiver of a touchdown
  pass to be its \<^verbatim>\<open>receiverId\<close>, whatever it is; \<open>creditedPoints\<close> only when that id is not
  the empty string, which is what the source tests.
\<close>

definition primaryPoints :: "Id \<Rightarrow> StatEvent \<Rightarrow> nat" where
  "primaryPoints pid e =
     (if type_e e = ''PASS_TD'' \<and> playerId e = pid then 6 else 0)
   + (if type_e e = ''RUSH_TD'' \<and> playerId e = pid then 6 else 0)
   + (if type_e e = ''REC_TD'' \<and> playerId e = pid then 6 else 0)
   + (if type_e e = ''DEF_TD'' \<and> playerId e = pid then 6 else 0)
   + (if type_e e = ''XP_1'' \<and> playerId e = pid then 1 else 0)
   + (if type_e e = ''XP_2'' \<and> playerId e = pid then 2 else 0)
   + (if type_e e = ''PAT_RET_2'' \<and> playerId e = pid then 2 else 0)"

definition statedPoints :: "Id \<Rightarrow> StatEvent \<Rightarrow> nat" where
  "statedPoints pid e =
     primaryPoints pid e
   + (if type_e e = ''PASS_TD'' \<and> receiverId e = Some pid then 6 else 0)"

definition creditedPoints :: "Id \<Rightarrow> StatEvent \<Rightarrow> nat" where
  "creditedPoints pid e =
     primaryPoints pid e
   + (if type_e e = ''PASS_TD'' \<and> receiverId e = Some pid \<and> pid \<noteq> [] then 6 else 0)"

text \<open>
  The points an event declares in the table: those of the primary effect, and those of
  the receiver effect when the event has a receiver. \<open>statedDeclaredPoints\<close> takes every
  \<^verbatim>\<open>receiverId\<close> for a receiver, \<open>declaredPoints\<close> only one that is not the empty string.
\<close>

definition statedDeclaredPoints :: "StatEvent \<Rightarrow> nat" where
  "statedDeclaredPoints e =
     points (primaryDelta (type_e e))
     + (if receiverId e \<noteq> None then points (secondaryDelta (type_e e)) else 0)"

definition declaredPoints :: "StatEvent \<Rightarrow> nat" where
  "declaredPoints e =
     points (primaryDelta (type_e e))
     + (if truthyId (receiverId e) then points (secondaryDelta (type_e e)) else 0)"

text \<open>The points of all buckets of a mapping.\<close>

definition totalPoints :: "Buckets \<Rightarrow> nat" where
  "totalPoints m = (\<Sum>pid \<in> dom m. points (bucketOr m pid))"

text \<open>The tags of \<^verbatim>\<open>type RuleSet\<close>, as they appear in a document.\<close>

definition ruleSetTags :: "string list" where
  "ruleSetTags = [''NEXT_LEVEL'', ''NFL_FLAG'', ''FARM_LEAGUE'']"

text \<open>A stand-in for \<^verbatim>\<open>JSON.parse\<close> that knows two texts, for the scenarios.\<close>

definition exParse :: "string \<Rightarrow> json option" where
  "exParse t =
     (if t = ''null'' then Some JNull
      else if t = ''doc'' then
        Some (JObj [(''players'', JStr ''x''),
                    (''games'', JArr [JObj [(''opponent'', JStr ''Owls''), (''ruleSet'', JNull),
                                            (''events'', JNum 3)],
                                      JNull])])
      else None)"

section \<open>Properties of the aggregation of the specification\<close>

lemma addStats_commute: "addStats a b = addStats b a"
  by (simp add: addStats_def)

lemma addStats_assoc: "addStats (addStats a b) c = addStats a (addStats b c)"
  by (simp add: addStats_def)

lemma addStats_empty [simp]: "addStats a emptyStats = a" "addStats emptyStats a = a"
  by (simp_all add: addStats_def emptyStats_def)

lemma bucketOr_upd: "bucketOr (m(p \<mapsto> s)) q = (if q = p then s else bucketOr m q)"
  by (simp add: bucketOr_def)

lemma credit_commute:
  "credit p d (credit q d' m) = credit q d' (credit p d m)"
  by (auto simp: credit_def bucketOr_upd fun_upd_twist addStats_assoc addStats_commute[of d d'])

lemma applyDelta_commute:
  "applyDelta (applyDelta m a) b = applyDelta (applyDelta m b) a"
  by (simp add: applyDelta_def credit_commute split: option.splits)

lemma credit_lookup:
  "credit p d m q = (if q = p then Some (addStats (bucketOr m p) d) else m q)"
  by (simp add: credit_def)

lemma deltaFor_unmentioned: "\<not> mentions e pid \<Longrightarrow> deltaFor pid e = emptyStats"
  by (simp add: mentions_def deltaFor_def)

lemma applyDelta_lookup:
  "applyDelta m e pid =
     (if mentions e pid then Some (addStats (bucketOr m pid) (deltaFor pid e)) else m pid)"
  by (cases "receiverRef e")
     (auto simp: applyDelta_def credit_lookup mentions_def deltaFor_def bucketOr_def
        addStats_assoc)

lemma bucketOr_applyDelta:
  "bucketOr (applyDelta m e) pid = addStats (bucketOr m pid) (deltaFor pid e)"
  by (simp add: bucketOr_def applyDelta_lookup deltaFor_unmentioned split: option.splits)

lemma sumStats_unmentioned:
  "\<forall>e \<in> set es. \<not> mentions e pid \<Longrightarrow> sumStats (map (deltaFor pid) es) = emptyStats"
  by (induction es) (simp_all add: deltaFor_unmentioned)

lemma foldl_applyDelta_lookup:
  "foldl applyDelta m es pid =
     (if \<exists>e \<in> set es. mentions e pid
      then Some (addStats (bucketOr m pid) (sumStats (map (deltaFor pid) es)))
      else m pid)"
proof (induction es arbitrary: m)
  case Nil
  show ?case by simp
next
  case (Cons e es)
  have "foldl applyDelta m (e # es) pid = foldl applyDelta (applyDelta m e) es pid"
    by simp
  also have "\<dots> =
     (if \<exists>x \<in> set es. mentions x pid
      then Some (addStats (bucketOr (applyDelta m e) pid) (sumStats (map (deltaFor pid) es)))
      else applyDelta m e pid)"
    by (rule Cons.IH)
  finally show ?case
    by (simp add: bucketOr_applyDelta applyDelta_lookup [of m e pid] addStats_assoc
        deltaFor_unmentioned sumStats_unmentioned del: foldl_Cons)
qed

lemma rosterBuckets_lookup: "rosterBuckets ps pid = (if pid \<in> id_p ` set ps then Some emptyStats else None)"
proof -
  have "foldl (\<lambda>m p. m(id_p p \<mapsto> emptyStats)) m ps pid =
          (if pid \<in> id_p ` set ps then Some emptyStats else m pid)" for m
    by (induction ps arbitrary: m) auto
  then show ?thesis by (simp add: rosterBuckets_def)
qed

lemma aggregate_lookup:
  "aggregate ps es pid =
     (if pid \<in> id_p ` set ps \<or> (\<exists>e \<in> set es. mentions e pid)
      then Some (sumStats (map (deltaFor pid) es)) else None)"
  by (auto simp add: aggregate_def foldl_applyDelta_lookup rosterBuckets_lookup bucketOr_def
      sumStats_unmentioned)

lemma aggregate_perm:
  assumes "mset es = mset es'"
  shows "aggregate ps es = aggregate ps es'"
proof -
  have "fold (\<lambda>e m. applyDelta m e) es (rosterBuckets ps) = fold (\<lambda>e m. applyDelta m e) es' (rosterBuckets ps)"
    using assms by (intro fold_multiset_equiv [THEN fun_cong]) (auto simp: fun_eq_iff applyDelta_commute)
  then show ?thesis by (simp add: aggregate_def foldl_conv_fold)
qed

lemma aggregate_snoc: "aggregate ps (es @ [e]) = applyDelta (aggregate ps es) e"
  by (simp add: aggregate_def)

lemma aggregate_remove:
  "aggregate ps (xs @ e # ys) = applyDelta (aggregate ps (xs @ ys)) e"
proof -
  have "mset (xs @ e # ys) = mset ((xs @ ys) @ [e])" by simp
  then have "aggregate ps (xs @ e # ys) = aggregate ps ((xs @ ys) @ [e])"
    by (rule aggregate_perm)
  then show ?thesis by (simp only: aggregate_snoc)
qed

lemma primaryDelta_unknown: "t \<notin> set eventTypes \<Longrightarrow> primaryDelta t = emptyStats"
  by (simp add: eventTypes_def primaryDelta_def)

lemma receiverRef_unknown: "type_e e \<notin> set eventTypes \<Longrightarrow> receiverRef e = None"
  by (auto simp: eventTypes_def receiverRef_def)

lemma selectedGame_ruleSet:
  "selectedGame (s\<lparr>games := map (\<lambda>g. g\<lparr>ruleSet := f g\<rparr>) (games s)\<rparr>)
     = map_option (\<lambda>g. g\<lparr>ruleSet := f g\<rparr>) (selectedGame s)"
proof -
  have "find (\<lambda>g. Some (id_g g) = k) (map (\<lambda>g. g\<lparr>ruleSet := f g\<rparr>) gs)
          = map_option (\<lambda>g. g\<lparr>ruleSet := f g\<rparr>) (find (\<lambda>g. Some (id_g g) = k) gs)"
    for k and gs :: "Game list"
    by (induction gs) simp_all
  then show ?thesis by (simp add: selectedGame_def)
qed

lemma receiverRef_Some: "receiverRef e = Some r \<Longrightarrow> receiverId e = Some r"
  by (auto simp: receiverRef_def split: if_splits)

lemma points_addStats: "points (addStats a b) = points a + points b"
  by (simp add: addStats_def)

lemma points_sumStats: "points (sumStats ds) = sum_list (map points ds)"
  by (induction ds) (simp_all add: points_addStats emptyStats_def)

lemma points_primaryDelta:
  "points (primaryDelta t) =
     (if t = ''PASS_TD'' \<or> t = ''RUSH_TD'' \<or> t = ''REC_TD'' \<or> t = ''DEF_TD'' then 6
      else if t = ''XP_1'' then 1
      else if t = ''XP_2'' \<or> t = ''PAT_RET_2'' then 2 else 0)"
  by (simp add: primaryDelta_def emptyStats_def)

lemma points_secondaryDelta:
  "points (secondaryDelta t) = (if t = ''PASS_TD'' then 6 else 0)"
  by (simp add: secondaryDelta_def emptyStats_def)

lemma points_deltaFor: "points (deltaFor pid e) = creditedPoints pid e"
proof -
  have r: "receiverRef e = Some pid \<longleftrightarrow>
      (type_e e = ''PASS_COMP'' \<or> type_e e = ''PASS_TD'') \<and> receiverId e = Some pid \<and> pid \<noteq> []"
    by (cases "receiverId e") (auto simp: receiverRef_def)
  have e0: "points emptyStats = 0" by (simp add: emptyStats_def)
  show ?thesis
    by (simp add: deltaFor_def points_addStats points_primaryDelta points_secondaryDelta r e0
        creditedPoints_def primaryPoints_def)
qed

lemma dom_credit: "dom (credit p d m) = insert p (dom m)"
  by (simp add: credit_def)

lemma totalPoints_credit:
  assumes "finite (dom m)"
  shows "totalPoints (credit p d m) = totalPoints m + points d"
proof -
  let ?D = "dom m - {p}"
  have fin: "finite ?D" using assms by simp
  have new: "totalPoints (credit p d m)
      = points (bucketOr (credit p d m) p) + (\<Sum>q \<in> ?D. points (bucketOr (credit p d m) q))"
  proof -
    have "dom (credit p d m) = insert p ?D" by (auto simp: dom_credit)
    then have "totalPoints (credit p d m)
        = (\<Sum>q \<in> insert p ?D. points (bucketOr (credit p d m) q))"
      by (simp only: totalPoints_def)
    also have "\<dots> = points (bucketOr (credit p d m) p)
        + (\<Sum>q \<in> ?D. points (bucketOr (credit p d m) q))"
      using fin by (subst sum.insert) auto
    finally show ?thesis .
  qed
  have same: "(\<Sum>q \<in> ?D. points (bucketOr (credit p d m) q)) = (\<Sum>q \<in> ?D. points (bucketOr m q))"
    by (rule sum.cong) (simp_all add: credit_def bucketOr_upd)
  have old: "totalPoints m = points (bucketOr m p) + (\<Sum>q \<in> ?D. points (bucketOr m q))"
  proof (cases "p \<in> dom m")
    case True
    then have "dom m = insert p ?D" by blast
    then have "totalPoints m = (\<Sum>q \<in> insert p ?D. points (bucketOr m q))"
      by (simp only: totalPoints_def)
    also have "\<dots> = points (bucketOr m p) + (\<Sum>q \<in> ?D. points (bucketOr m q))"
      using fin by (subst sum.insert) auto
    finally show ?thesis .
  next
    case False
    then have "points (bucketOr m p) = 0" by (auto simp: bucketOr_def emptyStats_def dom_def)
    moreover from False have "?D = dom m" by blast
    ultimately show ?thesis by (simp add: totalPoints_def)
  qed
  have "points (bucketOr (credit p d m) p) = points (bucketOr m p) + points d"
    by (simp add: credit_def bucketOr_upd points_addStats)
  with new same old show ?thesis by simp
qed

lemma declaredPoints_credit:
  "declaredPoints e =
     (case receiverRef e of
        None \<Rightarrow> points (primaryDelta (type_e e))
      | Some r \<Rightarrow> points (primaryDelta (type_e e)) + points (secondaryDelta (type_e e)))"
  by (cases "receiverId e")
     (auto simp: declaredPoints_def receiverRef_def points_secondaryDelta)

lemma finite_dom_applyDelta: "finite (dom m) \<Longrightarrow> finite (dom (applyDelta m e))"
  by (simp add: applyDelta_def dom_credit split: option.splits)

lemma totalPoints_applyDelta:
  assumes "finite (dom m)"
  shows "totalPoints (applyDelta m e) = totalPoints m + declaredPoints e"
proof (cases "receiverRef e")
  case None
  then show ?thesis
    using assms by (simp add: applyDelta_def totalPoints_credit declaredPoints_credit)
next
  case (Some r)
  have "finite (dom (credit (playerId e) (primaryDelta (type_e e)) m))"
    using assms by (simp add: dom_credit)
  then show ?thesis
    using assms Some by (simp add: applyDelta_def totalPoints_credit declaredPoints_credit)
qed

lemma totalPoints_foldl:
  "finite (dom m) \<Longrightarrow>
     totalPoints (foldl applyDelta m es) = totalPoints m + sum_list (map declaredPoints es)"
proof (induction es arbitrary: m)
  case Nil
  show ?case by simp
next
  case (Cons e es)
  from Cons.prems have "finite (dom (applyDelta m e))" by (rule finite_dom_applyDelta)
  from Cons.IH [OF this] Cons.prems show ?case
    by (simp add: totalPoints_applyDelta)
qed

lemma dom_rosterBuckets: "dom (rosterBuckets ps) = id_p ` set ps"
  by (auto simp: dom_def rosterBuckets_lookup)

lemma totalPoints_rosterBuckets: "totalPoints (rosterBuckets ps) = 0"
proof -
  have "points (bucketOr (rosterBuckets ps) pid) = 0" for pid
    by (simp add: bucketOr_def rosterBuckets_lookup emptyStats_def)
  then show ?thesis by (simp add: totalPoints_def)
qed

lemma applyDelta_unknown:
  "type_e e \<notin> set eventTypes \<Longrightarrow> applyDelta m e = m(playerId e \<mapsto> bucketOr m (playerId e))"
  by (simp add: applyDelta_def receiverRef_unknown primaryDelta_unknown credit_def)

lemma pat_return_gain:
  assumes "type_e e = ''PAT_RET_2''"
  shows "bucketOr (applyDelta m e) (playerId e)
           = addStats (bucketOr m (playerId e)) (emptyStats\<lparr>patRet2 := 1, points := 2\<rparr>)"
  using assms
  by (simp add: bucketOr_applyDelta deltaFor_def receiverRef_def primaryDelta_def)

lemma pass_comp_without_receiver:
  "receiverId e = None \<Longrightarrow> type_e e = ''PASS_COMP'' \<Longrightarrow>
     applyDelta m e = (let s = bucketOr m (playerId e) in
       m(playerId e \<mapsto> s\<lparr>passAtt := passAtt s + 1, passComp := passComp s + 1\<rparr>))"
  by (cases "bucketOr m (playerId e)")
     (simp add: applyDelta_def receiverRef_def credit_def primaryDelta_def addStats_def
        emptyStats_def Let_def)

lemma pass_td_without_receiver:
  "receiverId e = None \<Longrightarrow> type_e e = ''PASS_TD'' \<Longrightarrow>
     applyDelta m e = (let s = bucketOr m (playerId e) in
       m(playerId e \<mapsto> s\<lparr>passAtt := passAtt s + 1, passComp := passComp s + 1,
         passTD := passTD s + 1, points := points s + 6\<rparr>))"
  by (cases "bucketOr m (playerId e)")
     (simp add: applyDelta_def receiverRef_def credit_def primaryDelta_def addStats_def
        emptyStats_def Let_def)

lemma pass_comp_to_self:
  "receiverId e = Some (playerId e) \<Longrightarrow> playerId e \<noteq> [] \<Longrightarrow> type_e e = ''PASS_COMP'' \<Longrightarrow>
     applyDelta m e = (let s = bucketOr m (playerId e) in
       m(playerId e \<mapsto> s\<lparr>passAtt := passAtt s + 1, passComp := passComp s + 1,
         rec := rec s + 1\<rparr>))"
  by (cases "bucketOr m (playerId e)")
     (simp add: applyDelta_def receiverRef_def credit_def primaryDelta_def secondaryDelta_def
        addStats_def emptyStats_def Let_def bucketOr_upd)

lemma pass_td_to_self:
  "receiverId e = Some (playerId e) \<Longrightarrow> playerId e \<noteq> [] \<Longrightarrow> type_e e = ''PASS_TD'' \<Longrightarrow>
     applyDelta m e = (let s = bucketOr m (playerId e) in
       m(playerId e \<mapsto> s\<lparr>passAtt := passAtt s + 1, passComp := passComp s + 1,
         passTD := passTD s + 1, rec := rec s + 1, recTD := recTD s + 1,
         points := points s + 12\<rparr>))"
  by (cases "bucketOr m (playerId e)")
     (simp add: applyDelta_def receiverRef_def credit_def primaryDelta_def secondaryDelta_def
        addStats_def emptyStats_def Let_def bucketOr_upd add.commute)

lemma map_of_setProp:
  "map_of (setProp k v kvs) k' = (if k' = k then Some v else map_of kvs k')"
  by (induction kvs) auto

lemma guardGame_ruleSet:
  "getProp (guardGame g) ''ruleSet''
     = Some (if truthy (getProp g ''ruleSet'') then the (getProp g ''ruleSet'') else JStr ''NFL_FLAG'')"
  by (simp add: guardGame_def map_of_setProp split: option.splits)

lemma guardGame_events:
  "getProp (guardGame g) ''events''
     = Some (case getProp g ''events'' of Some (JArr es) \<Rightarrow> JArr es | _ \<Rightarrow> JArr [])"
  by (simp add: guardGame_def map_of_setProp)

lemma shapeGuards_Inr:
  "parsed \<noteq> JNull \<Longrightarrow> \<exists>s. shapeGuards parsed = Inr s"
  by (simp add: shapeGuards_def)

section \<open>computeStats and the aggregation of the specification\<close>

lemma bindE_Inr [simp]: "bindE (Inr a) f = f a"
  by (simp add: bindE_def)

lemma bindE_Inl [simp]: "bindE (Inl err) f = Inl err"
  by (simp add: bindE_def)

lemma bindE_eq_Inr: "bindE x f = Inr y \<longleftrightarrow> (\<exists>a. x = Inr a \<and> f a = Inr y)"
  by (cases x) simp_all

lemma proto_key: "''__proto__'' \<in> set objectPrototypeKeys"
  by (simp add: objectPrototypeKeys_def)

lemma ensure_plain:
  assumes "proto b = None" and "k \<notin> set objectPrototypeKeys"
  shows "ensure b k = (b\<lparr>own := (own b)(k \<mapsto> bucketOr (own b) k)\<rparr>, OwnBucket k)"
proof -
  from assms(2) proto_key have k: "k \<noteq> ''__proto__''" by blast
  show ?thesis
  proof (cases "own b k")
    case None
    with assms k show ?thesis
      by (simp add: ensure_def getById_def setById_def bucketOr_def)
  next
    case (Some x)
    then have "(own b)(k \<mapsto> x) = own b" by (simp add: fun_upd_idem)
    with Some show ?thesis
      by (simp add: ensure_def getById_def bucketOr_def)
  qed
qed

lemma addTo_own:
  "addTo (OwnBucket k) f (b\<lparr>own := m(k \<mapsto> x)\<rparr>) = Inr (b\<lparr>own := m(k \<mapsto> f x)\<rparr>)"
  by (simp add: addTo_def)

lemma applyEvent_plain:
  assumes p: "proto b = None"
    and k: "playerId e \<notin> set objectPrototypeKeys"
    and r: "\<forall>r. receiverId e = Some r \<longrightarrow> r \<notin> set objectPrototypeKeys"
  shows "applyEvent b e = Inr (b\<lparr>own := applyDelta (own b) e\<rparr>)"
proof -
  obtain a1 a2 a3 a4 a5 a6 a7 a8 a9 a10 a11 a12 a13 a14 a15 a16 where
    fs: "bucketOr (own b) (playerId e) = \<lparr>passAtt = a1, passComp = a2, passTD = a3,
      intThrown = a4, rushAtt = a5, rushTD = a6, rec = a7, recTD = a8, defInt = a9, sacks = a10,
      flagPulls = a11, defTD = a12, xp1 = a13, xp2 = a14, patRet2 = a15, points = a16\<rparr>"
    by (cases "bucketOr (own b) (playerId e)")
  show ?thesis
  proof (cases "receiverRef e")
    case None
    then have n: "(type_e e = ''PASS_COMP'' \<or> type_e e = ''PASS_TD'') \<Longrightarrow>
        receiverId e = None \<or> receiverId e = Some []"
      by (cases "receiverId e") (auto simp: receiverRef_def split: if_splits)
    show ?thesis
      using n None
      by (auto simp add: applyEvent_def Let_def ensure_plain [OF p k] addTo_own creditRec_def
          creditRecTD_def applyDelta_def credit_def primaryDelta_def addStats_def emptyStats_def
          fs)
  next
    case (Some rid)
    then have t: "type_e e = ''PASS_COMP'' \<or> type_e e = ''PASS_TD''"
      and rid: "receiverId e = Some rid" "rid \<noteq> []"
      by (auto simp: receiverRef_def split: if_splits)
    from r rid have rk: "rid \<notin> set objectPrototypeKeys" by blast
    obtain c1 c2 c3 c4 c5 c6 c7 c8 c9 c10 c11 c12 c13 c14 c15 c16 where
      fr: "bucketOr (own b) rid = \<lparr>passAtt = c1, passComp = c2, passTD = c3,
        intThrown = c4, rushAtt = c5, rushTD = c6, rec = c7, recTD = c8, defInt = c9,
        sacks = c10, flagPulls = c11, defTD = c12, xp1 = c13, xp2 = c14, patRet2 = c15,
        points = c16\<rparr>"
      by (cases "bucketOr (own b) rid")
    have en: "ensure (b\<lparr>own := m\<rparr>) rid
        = (b\<lparr>own := m(rid \<mapsto> bucketOr m rid)\<rparr>, OwnBucket rid)" for m
      using ensure_plain [of "b\<lparr>own := m\<rparr>" rid] p rk by simp
    from t show ?thesis
    proof
      assume "type_e e = ''PASS_COMP''"
      then show ?thesis
        using Some rid
        by (simp add: applyEvent_def Let_def ensure_plain [OF p k] addTo_own creditRec_def en
            applyDelta_def credit_def primaryDelta_def secondaryDelta_def addStats_def
            emptyStats_def bucketOr_upd fs fr)
    next
      assume "type_e e = ''PASS_TD''"
      then show ?thesis
        using Some rid
        by (simp add: applyEvent_def Let_def ensure_plain [OF p k] addTo_own creditRecTD_def en
            applyDelta_def credit_def primaryDelta_def secondaryDelta_def addStats_def
            emptyStats_def bucketOr_upd fs fr)
    qed
  qed
qed

lemma runEvents_plain:
  assumes "proto b = None" and "plainIds [] es"
  shows "runEvents b es = Inr (b\<lparr>own := foldl applyDelta (own b) es\<rparr>)"
  using assms
proof (induction es arbitrary: b)
  case Nil
  show ?case by simp
next
  case (Cons e es)
  from Cons.prems have e: "playerId e \<notin> set objectPrototypeKeys"
    "\<forall>r. receiverId e = Some r \<longrightarrow> r \<notin> set objectPrototypeKeys"
    and es: "plainIds [] es"
    by (auto simp: plainIds_def)
  have "runEvents (b\<lparr>own := applyDelta (own b) e\<rparr>) es
      = Inr (b\<lparr>own := applyDelta (own b) e\<rparr>\<lparr>own := foldl applyDelta (applyDelta (own b) e) es\<rparr>)"
    using Cons.IH [of "b\<lparr>own := applyDelta (own b) e\<rparr>"] Cons.prems(1) es by simp
  then show ?case
    by (simp add: applyEvent_plain [OF Cons.prems(1) e])
qed

lemma seed_plain:
  assumes "\<forall>p \<in> set ps. id_p p \<notin> set objectPrototypeKeys"
  shows "seed ps = \<lparr>own = rosterBuckets ps, proto = None\<rparr>"
proof -
  have "foldl (\<lambda>byId p. setById byId (id_p p)) b ps
      = b\<lparr>own := foldl (\<lambda>m p. m(id_p p \<mapsto> emptyStats)) (own b) ps\<rparr>"
    if "\<forall>p \<in> set ps. id_p p \<noteq> ''__proto__''" for b
    using that by (induction ps arbitrary: b) (simp_all add: setById_def)
  moreover from assms proto_key have "\<forall>p \<in> set ps. id_p p \<noteq> ''__proto__''" by metis
  ultimately show ?thesis
    by (simp add: seed_def rosterBuckets_def emptyById_def)
qed

lemma computeStats_plain:
  assumes "plainIds ps es"
  shows "computeStats ps es = Inr \<lparr>own = aggregate ps es, proto = None\<rparr>"
proof -
  from assms have ps: "\<forall>p \<in> set ps. id_p p \<notin> set objectPrototypeKeys" and es: "plainIds [] es"
    by (auto simp: plainIds_def)
  show ?thesis
    using runEvents_plain [of "\<lparr>own = rosterBuckets ps, proto = None\<rparr>" es] es
    by (simp add: computeStats_def seed_plain [OF ps] aggregate_def)
qed

lemma getById_proto_truthy: "truthyValue (getById b ''__proto__'')"
  by (simp add: getById_def counter_def split: option.splits)

lemma ensure_own_dom:
  assumes "ensure b k = (b', v)"
  shows "dom (own b') \<subseteq> insert k (dom (own b)) \<and> proto b' = proto b"
proof (cases "truthyValue (getById b k)")
  case True
  with assms show ?thesis by (auto simp: ensure_def)
next
  case False
  with getById_proto_truthy have "k \<noteq> ''__proto__''" by metis
  with False assms show ?thesis by (auto simp: ensure_def setById_def)
qed

lemma addTo_own_dom:
  "addTo v f b = Inr b' \<Longrightarrow> dom (own b') = dom (own b) \<and> (proto b = None \<longrightarrow> proto b' = None)"
  by (auto simp: addTo_def split: jsValue.splits option.splits if_splits)

lemma addAll_own_dom:
  "addAll v fs b = Inr b' \<Longrightarrow> dom (own b') = dom (own b) \<and> (proto b = None \<longrightarrow> proto b' = None)"
proof (induction fs arbitrary: b)
  case Nil
  then show ?case by simp
next
  case (Cons f fs)
  then obtain b1 where 1: "addTo v f b = Inr b1" and 2: "addAll v fs b1 = Inr b'"
    by (auto simp: bindE_eq_Inr)
  from addTo_own_dom [OF 1] Cons.IH [OF 2] show ?case by simp
qed

lemma creditRec_own_dom:
  assumes "creditRec e b = Inr b'"
  shows "dom (own b') \<subseteq> dom (own b) \<union> {r. receiverId e = Some r}
       \<and> (proto b = None \<longrightarrow> proto b' = None)"
proof (cases "receiverId e")
  case None
  with assms show ?thesis by (auto simp: creditRec_def)
next
  case (Some rid)
  show ?thesis
  proof (cases "rid = []")
    case True
    with Some assms show ?thesis by (auto simp: creditRec_def)
  next
    case False
    obtain b1 v where en: "ensure b rid = (b1, v)" by (cases "ensure b rid")
    with Some False assms have "addAll v [\<lambda>x. x\<lparr>rec := rec x + 1\<rparr>] b1 = Inr b'"
      by (simp add: creditRec_def)
    from addAll_own_dom [OF this] ensure_own_dom [OF en] Some show ?thesis by auto
  qed
qed

lemma creditRecTD_own_dom:
  assumes "creditRecTD e b = Inr b'"
  shows "dom (own b') \<subseteq> dom (own b) \<union> {r. receiverId e = Some r}
       \<and> (proto b = None \<longrightarrow> proto b' = None)"
proof (cases "receiverId e")
  case None
  with assms show ?thesis by (auto simp: creditRecTD_def)
next
  case (Some rid)
  show ?thesis
  proof (cases "rid = []")
    case True
    with Some assms show ?thesis by (auto simp: creditRecTD_def)
  next
    case False
    obtain b1 v where en: "ensure b rid = (b1, v)" by (cases "ensure b rid")
    with Some False assms have "addAll v [\<lambda>x. x\<lparr>rec := rec x + 1\<rparr>, \<lambda>x. x\<lparr>recTD := recTD x + 1\<rparr>,
                              \<lambda>x. x\<lparr>points := points x + 6\<rparr>] b1 = Inr b'"
      by (simp add: creditRecTD_def del: addAll.simps)
    from addAll_own_dom [OF this] ensure_own_dom [OF en] Some show ?thesis by auto
  qed
qed

lemma applyEvent_own_dom:
  assumes "applyEvent b e = Inr b'"
  shows "dom (own b') \<subseteq> dom (own b) \<union> {playerId e} \<union> {r. receiverId e = Some r}
       \<and> (proto b = None \<longrightarrow> proto b' = None)"
proof -
  obtain b0 s where en: "ensure b (playerId e) = (b0, s)" by (cases "ensure b (playerId e)")
  from ensure_own_dom [OF en]
  have 0: "dom (own b0) \<subseteq> insert (playerId e) (dom (own b))" "proto b0 = proto b" by simp_all
  have step: "dom (own b') \<subseteq> dom (own b0) \<union> {r. receiverId e = Some r}
       \<and> (proto b0 = None \<longrightarrow> proto b' = None)"
    using assms en
    by (auto simp add: applyEvent_def Let_def bindE_eq_Inr simp del: addAll.simps
        split: if_splits
        dest!: addAll_own_dom creditRec_own_dom creditRecTD_own_dom)
  with 0 show ?thesis by (simp only:) blast
qed

lemma runEvents_own_dom:
  "runEvents b es = Inr b' \<Longrightarrow>
     dom (own b') \<subseteq> dom (own b) \<union> playerId ` set es \<union> {r. \<exists>e \<in> set es. receiverId e = Some r}
     \<and> (proto b = None \<longrightarrow> proto b' = None)"
proof (induction es arbitrary: b)
  case Nil
  then show ?case by simp
next
  case (Cons e es)
  then obtain b1 where 1: "applyEvent b e = Inr b1" and 2: "runEvents b1 es = Inr b'"
    by (auto simp: bindE_eq_Inr)
  have S: "set (e # es) = insert e (set es)" by simp
  from applyEvent_own_dom [OF 1] Cons.IH [OF 2] show ?case
    unfolding S by blast
qed

lemma seed_own_dom:
  "dom (own (seed ps)) \<subseteq> id_p ` set ps
   \<and> (''__proto__'' \<notin> id_p ` set ps \<longrightarrow> proto (seed ps) = None)"
proof -
  have "dom (own (foldl (\<lambda>byId p. setById byId (id_p p)) b ps)) \<subseteq> dom (own b) \<union> id_p ` set ps
      \<and> (''__proto__'' \<notin> id_p ` set ps \<longrightarrow>
           proto (foldl (\<lambda>byId p. setById byId (id_p p)) b ps) = proto b)" for b
  proof (induction ps arbitrary: b)
    case Nil
    show ?case by simp
  next
    case (Cons p ps)
    from Cons.IH [of "setById b (id_p p)"] show ?case
      by (auto simp: setById_def split: if_splits)
  qed
  from this [of emptyById] show ?thesis by (simp add: seed_def emptyById_def)
qed

lemma computeStats_own_dom:
  assumes "computeStats ps es = Inr r"
  shows "dom (own r) \<subseteq> id_p ` set ps \<union> playerId ` set es
           \<union> {k. \<exists>e \<in> set es. receiverId e = Some k}
       \<and> (''__proto__'' \<notin> id_p ` set ps \<longrightarrow> proto r = None)"
proof -
  from assms have "runEvents (seed ps) es = Inr r" by (simp add: computeStats_def)
  from runEvents_own_dom [OF this] seed_own_dom [of ps] show ?thesis
    by (meson Un_mono order_refl order_trans)
qed

lemma plainIds_remove: "plainIds ps (xs @ e # ys) \<Longrightarrow> plainIds ps (xs @ ys)"
  by (auto simp: plainIds_def)

lemma computeStats_plain_remove:
  assumes "plainIds ps (xs @ e # ys)"
  shows "computeStats ps (xs @ ys) = Inr \<lparr>own = aggregate ps (xs @ ys), proto = None\<rparr>"
    and "computeStats ps (xs @ e # ys)
           = Inr \<lparr>own = applyDelta (aggregate ps (xs @ ys)) e, proto = None\<rparr>"
  using computeStats_plain [OF assms] computeStats_plain [OF plainIds_remove [OF assms]]
  by (simp_all add: aggregate_remove)

section \<open>Evaluation on scenarios\<close>

lemmas run_defs = computeStats_def seed_def emptyById_def setById_def ensure_def getById_def
  applyEvent_def creditRec_def creditRecTD_def addTo_def counter_def objectPrototypeKeys_def
  mkEvent_def exPlayer_def emptyStats_def Let_def

lemma plainIds_example:
  "plainIds [exPlayer ''A'', exPlayer ''B'']
     [mkEvent ''PASS_TD'' ''A'' (Some ''B''), mkEvent ''XP_2'' ''A'' None]"
  by (simp add: plainIds_def objectPrototypeKeys_def exPlayer_def mkEvent_def)

lemma plainIds_single:
  "p \<notin> set objectPrototypeKeys \<Longrightarrow> plainIds [] ([] @ mkEvent t p None # [])"
  by (simp add: plainIds_def mkEvent_def)

lemma plainIds_mset:
  assumes "mset es = mset es'"
  shows "plainIds ps es = plainIds ps es'"
proof -
  from assms have "set es = set es'" by (rule mset_eq_setD)
  then show ?thesis by (simp add: plainIds_def)
qed

lemma computeStats_plain_perm:
  assumes "plainIds ps es" and "mset es = mset es'"
  shows "computeStats ps es = computeStats ps es'"
proof -
  from assms(1) have "plainIds ps es'" by (simp only: plainIds_mset [OF assms(2), of ps])
  then have "computeStats ps es' = Inr \<lparr>own = aggregate ps es', proto = None\<rparr>"
    by (rule computeStats_plain)
  with computeStats_plain [OF assms(1)] aggregate_perm [OF assms(2), of ps]
  show ?thesis by simp
qed

lemma statsByPlayer_ruleSet:
  "statsByPlayer (s\<lparr>games := map (\<lambda>g. g\<lparr>ruleSet := f g\<rparr>) (games s)\<rparr>) = statsByPlayer s"
  by (simp add: statsByPlayer_def selectedGame_ruleSet split: option.splits)

lemma deletePlayer_keeps:
  assumes "gm \<in> set (games s)" and "e \<in> set (events gm)"
    and "playerId e \<noteq> x" and "receiverId e \<noteq> Some x"
  shows "\<exists>gm' \<in> set (games (deletePlayer x s)). id_g gm' = id_g gm \<and> e \<in> set (events gm')"
proof -
  let ?g = "gm\<lparr>events := filter (\<lambda>e. playerId e \<noteq> x \<and> receiverId e \<noteq> Some x) (events gm)\<rparr>"
  from assms(1) have "?g \<in> set (games (deletePlayer x s))"
    by (simp add: deletePlayer_def)
  moreover from assms(2-4) have "id_g ?g = id_g gm \<and> e \<in> set (events ?g)" by simp
  ultimately show ?thesis by blast
qed

section \<open>The claims\<close>

text \<open>
  Claim C1, as amended. For a roster and an event list in which no id is a name inherited
  from \<^verbatim>\<open>Object.prototype\<close>, \<^verbatim>\<open>computeStats\<close> returns a mapping in which the \<^verbatim>\<open>points\<close> of every
  player are the sum of the points of the events crediting that player: 6 per \<^verbatim>\<open>PASS_TD\<close>
  as passer, 6 per \<^verbatim>\<open>PASS_TD\<close> as receiver when the \<^verbatim>\<open>receiverId\<close> is not the empty string, 6 per
  \<^verbatim>\<open>RUSH_TD\<close>, \<^verbatim>\<open>REC_TD\<close> and \<^verbatim>\<open>DEF_TD\<close>, 1 per \<^verbatim>\<open>XP_1\<close>, 2 per \<^verbatim>\<open>XP_2\<close> and \<^verbatim>\<open>PAT_RET_2\<close>. The points of
  all players together are the sum of the points the events declare in the table, the
  receiver's points counting when the \<^verbatim>\<open>receiverId\<close> is there and not empty.
\<close>

theorem points_are_sum_of_contributions:
  assumes "plainIds ps es"
  shows "\<exists>r. computeStats ps es = Inr r
           \<and> (\<forall>pid s. own r pid = Some s \<longrightarrow> points s = (\<Sum>e\<leftarrow>es. creditedPoints pid e))
           \<and> totalPoints (own r) = (\<Sum>e\<leftarrow>es. declaredPoints e)"
proof -
  have a: "points s = (\<Sum>e\<leftarrow>es. creditedPoints pid e)" if "aggregate ps es pid = Some s" for pid s
  proof -
    from that have "s = sumStats (map (deltaFor pid) es)"
      by (simp add: aggregate_lookup split: if_splits)
    then show ?thesis
      by (simp add: points_sumStats comp_def points_deltaFor)
  qed
  have "finite (dom (rosterBuckets ps))" by (simp add: dom_rosterBuckets)
  then have b: "totalPoints (aggregate ps es) = (\<Sum>e\<leftarrow>es. declaredPoints e)"
    by (simp add: aggregate_def totalPoints_foldl totalPoints_rosterBuckets)
  from a b computeStats_plain [OF assms] show ?thesis by simp
qed

theorem points_are_sum_of_contributions_witness:
  "plainIds [exPlayer ''A'', exPlayer ''B'']
      [mkEvent ''PASS_TD'' ''A'' (Some ''B''), mkEvent ''XP_2'' ''A'' None]
   \<and> computeStats [exPlayer ''A'', exPlayer ''B'']
      [mkEvent ''PASS_TD'' ''A'' (Some ''B''), mkEvent ''XP_2'' ''A'' None]
     = Inr \<lparr>own = [''A'' \<mapsto> emptyStats\<lparr>passAtt := 1, passComp := 1, passTD := 1, xp2 := 1,
                             points := 8\<rparr>,
                   ''B'' \<mapsto> emptyStats\<lparr>rec := 1, recTD := 1, points := 6\<rparr>],
            proto = None\<rparr>
   \<and> (\<Sum>e\<leftarrow>[mkEvent ''PASS_TD'' ''A'' (Some ''B''), mkEvent ''XP_2'' ''A'' None].
         creditedPoints ''A'' e) = 8
   \<and> totalPoints [''A'' \<mapsto> emptyStats\<lparr>passAtt := 1, passComp := 1, passTD := 1, xp2 := 1,
                             points := 8\<rparr>,
                   ''B'' \<mapsto> emptyStats\<lparr>rec := 1, recTD := 1, points := 6\<rparr>] = 14"
proof -
  let ?ps = "[exPlayer ''A'', exPlayer ''B'']"
  let ?es = "[mkEvent ''PASS_TD'' ''A'' (Some ''B''), mkEvent ''XP_2'' ''A'' None]"
  have v: "computeStats ?ps ?es
     = Inr \<lparr>own = [''A'' \<mapsto> emptyStats\<lparr>passAtt := 1, passComp := 1, passTD := 1, xp2 := 1,
                             points := 8\<rparr>,
                   ''B'' \<mapsto> emptyStats\<lparr>rec := 1, recTD := 1, points := 6\<rparr>],
            proto = None\<rparr>"
    by (simp add: run_defs fun_upd_twist)
  have c: "(\<Sum>e\<leftarrow>?es. creditedPoints ''A'' e) = 8"
    by (simp add: creditedPoints_def primaryPoints_def mkEvent_def)
  have d: "(\<Sum>e\<leftarrow>?es. declaredPoints e) = 14"
    by (simp add: declaredPoints_def mkEvent_def points_primaryDelta points_secondaryDelta)
  from points_are_sum_of_contributions [OF plainIds_example] v d
  have "totalPoints [''A'' \<mapsto> emptyStats\<lparr>passAtt := 1, passComp := 1, passTD := 1, xp2 := 1,
                             points := 8\<rparr>,
                   ''B'' \<mapsto> emptyStats\<lparr>rec := 1, recTD := 1, points := 6\<rparr>] = 14"
    by auto
  with plainIds_example v c show ?thesis by blast
qed

text \<open>
  Claim C1 as stated fails where the \<^verbatim>\<open>receiverId\<close> is the empty string: in the log
  \<^verbatim>\<open>[PASS_TD(player=A, receiver=""), RUSH_ATT(player="")]\<close> the player \<^verbatim>\<open>""\<close> has a bucket and
  is the receiver of the touchdown pass, but \<^verbatim>\<open>if (e.receiverId)\<close> skips the credit, so the
  bucket holds 0 points where the claim counts 6, and the event counts 6 of its 12 points.
\<close>

theorem points_are_sum_of_contributions_counterexample:
  "computeStats [exPlayer ''A''] [mkEvent ''PASS_TD'' ''A'' (Some []), mkEvent ''RUSH_ATT'' [] None]
     = Inr \<lparr>own = [''A'' \<mapsto> emptyStats\<lparr>passAtt := 1, passComp := 1, passTD := 1, points := 6\<rparr>,
                   [] \<mapsto> emptyStats\<lparr>rushAtt := 1\<rparr>],
            proto = None\<rparr>
   \<and> points (emptyStats\<lparr>rushAtt := 1\<rparr>)
       \<noteq> (\<Sum>e\<leftarrow>[mkEvent ''PASS_TD'' ''A'' (Some []), mkEvent ''RUSH_ATT'' [] None].
            statedPoints [] e)
   \<and> points (emptyStats\<lparr>passAtt := 1, passComp := 1, passTD := 1, points := 6\<rparr>)
         + points (emptyStats\<lparr>rushAtt := 1\<rparr>)
       \<noteq> (\<Sum>e\<leftarrow>[mkEvent ''PASS_TD'' ''A'' (Some []), mkEvent ''RUSH_ATT'' [] None].
            statedDeclaredPoints e)"
  by (simp add: run_defs fun_upd_twist statedPoints_def primaryPoints_def statedDeclaredPoints_def
      points_primaryDelta points_secondaryDelta)

text \<open>
  Claim C2, as amended. For the log \<^verbatim>\<open>[PASS_TD(player=A, receiver=B), XP_2(A)]\<close>, with \<open>A\<close> and
  \<open>B\<close> different ids, \<open>B\<close> not the empty string, and no id of the roster or the log a name
  inherited from \<^verbatim>\<open>Object.prototype\<close>, \<^verbatim>\<open>computeStats\<close> returns, with no error, the bucket
  \<^verbatim>\<open>{passAtt: 1, passComp: 1, passTD: 1, xp2: 1, points: 8}\<close> for \<open>A\<close> and the bucket
  \<^verbatim>\<open>{rec: 1, recTD: 1, points: 6}\<close> for \<open>B\<close>, every other counter zero: the conversion also
  counts in \<^verbatim>\<open>xp2\<close>. With such ids, a \<^verbatim>\<open>PASS_COMP\<close> or \<^verbatim>\<open>PASS_TD\<close> event without a \<^verbatim>\<open>receiverId\<close>
  raises no error and only changes the bucket of its player, by the primary effect.
\<close>

theorem pass_td_then_xp2_scenario:
  "(A \<noteq> B \<and> B \<noteq> [] \<and> type_e e1 = ''PASS_TD'' \<and> playerId e1 = A \<and> receiverId e1 = Some B
      \<and> type_e e2 = ''XP_2'' \<and> playerId e2 = A \<and> plainIds ps [e1, e2] \<longrightarrow>
        (\<exists>r. computeStats ps [e1, e2] = Inr r
           \<and> own r A
               = Some (emptyStats\<lparr>passAtt := 1, passComp := 1, passTD := 1, xp2 := 1, points := 8\<rparr>)
           \<and> own r B = Some (emptyStats\<lparr>rec := 1, recTD := 1, points := 6\<rparr>)))
   \<and> (receiverId e = None \<and> type_e e = ''PASS_COMP'' \<and> plainIds ps (xs @ e # ys) \<longrightarrow>
        (\<exists>r. computeStats ps (xs @ ys) = Inr r
           \<and> computeStats ps (xs @ e # ys)
               = Inr (r\<lparr>own := (let s = bucketOr (own r) (playerId e) in
                   (own r)(playerId e \<mapsto> s\<lparr>passAtt := passAtt s + 1,
                     passComp := passComp s + 1\<rparr>))\<rparr>)))
   \<and> (receiverId e = None \<and> type_e e = ''PASS_TD'' \<and> plainIds ps (xs @ e # ys) \<longrightarrow>
        (\<exists>r. computeStats ps (xs @ ys) = Inr r
           \<and> computeStats ps (xs @ e # ys)
               = Inr (r\<lparr>own := (let s = bucketOr (own r) (playerId e) in
                   (own r)(playerId e \<mapsto> s\<lparr>passAtt := passAtt s + 1,
                     passComp := passComp s + 1, passTD := passTD s + 1,
                     points := points s + 6\<rparr>))\<rparr>)))"
proof -
  have a: "\<exists>r. computeStats ps [e1, e2] = Inr r
           \<and> own r A
               = Some (emptyStats\<lparr>passAtt := 1, passComp := 1, passTD := 1, xp2 := 1, points := 8\<rparr>)
           \<and> own r B = Some (emptyStats\<lparr>rec := 1, recTD := 1, points := 6\<rparr>)"
    if "A \<noteq> B" "B \<noteq> []" "type_e e1 = ''PASS_TD''" "playerId e1 = A" "receiverId e1 = Some B"
      "type_e e2 = ''XP_2''" "playerId e2 = A" "plainIds ps [e1, e2]"
  proof -
    from that(1-7)
    have "aggregate ps [e1, e2] A
          = Some (emptyStats\<lparr>passAtt := 1, passComp := 1, passTD := 1, xp2 := 1, points := 8\<rparr>)
      \<and> aggregate ps [e1, e2] B = Some (emptyStats\<lparr>rec := 1, recTD := 1, points := 6\<rparr>)"
      by (simp add: aggregate_lookup mentions_def deltaFor_def receiverRef_def primaryDelta_def
          secondaryDelta_def addStats_def emptyStats_def)
    with computeStats_plain [OF that(8)] show ?thesis by simp
  qed
  have b: "\<exists>r. computeStats ps (xs @ ys) = Inr r
           \<and> computeStats ps (xs @ e # ys)
               = Inr (r\<lparr>own := (let s = bucketOr (own r) (playerId e) in
                   (own r)(playerId e \<mapsto> s\<lparr>passAtt := passAtt s + 1,
                     passComp := passComp s + 1\<rparr>))\<rparr>)"
    if "receiverId e = None" "type_e e = ''PASS_COMP''" "plainIds ps (xs @ e # ys)"
    using computeStats_plain_remove [OF that(3)]
      pass_comp_without_receiver [OF that(1,2), of "aggregate ps (xs @ ys)"]
    by simp
  have c: "\<exists>r. computeStats ps (xs @ ys) = Inr r
           \<and> computeStats ps (xs @ e # ys)
               = Inr (r\<lparr>own := (let s = bucketOr (own r) (playerId e) in
                   (own r)(playerId e \<mapsto> s\<lparr>passAtt := passAtt s + 1,
                     passComp := passComp s + 1, passTD := passTD s + 1,
                     points := points s + 6\<rparr>))\<rparr>)"
    if "receiverId e = None" "type_e e = ''PASS_TD''" "plainIds ps (xs @ e # ys)"
    using computeStats_plain_remove [OF that(3)]
      pass_td_without_receiver [OF that(1,2), of "aggregate ps (xs @ ys)"]
    by simp
  from a b c show ?thesis by blast
qed

theorem pass_td_then_xp2_scenario_witness:
  "plainIds [exPlayer ''A'', exPlayer ''B'']
      [mkEvent ''PASS_TD'' ''A'' (Some ''B''), mkEvent ''XP_2'' ''A'' None]
   \<and> (\<exists>r. computeStats [exPlayer ''A'', exPlayer ''B'']
             [mkEvent ''PASS_TD'' ''A'' (Some ''B''), mkEvent ''XP_2'' ''A'' None] = Inr r
         \<and> own r ''A''
             = Some (emptyStats\<lparr>passAtt := 1, passComp := 1, passTD := 1, xp2 := 1, points := 8\<rparr>)
         \<and> own r ''B'' = Some (emptyStats\<lparr>rec := 1, recTD := 1, points := 6\<rparr>))
   \<and> plainIds [] ([] @ mkEvent ''PASS_COMP'' ''A'' None # [])
   \<and> computeStats [] ([] @ mkEvent ''PASS_COMP'' ''A'' None # [])
     = Inr \<lparr>own = [''A'' \<mapsto> emptyStats\<lparr>passAtt := 1, passComp := 1\<rparr>], proto = None\<rparr>
   \<and> computeStats [] ([] @ mkEvent ''PASS_TD'' ''A'' None # [])
     = Inr \<lparr>own = [''A'' \<mapsto> emptyStats\<lparr>passAtt := 1, passComp := 1, passTD := 1, points := 6\<rparr>],
            proto = None\<rparr>"
proof -
  have h: "''A'' \<noteq> ''B''" "''B'' \<noteq> []"
    "type_e (mkEvent ''PASS_TD'' ''A'' (Some ''B'')) = ''PASS_TD''"
    "playerId (mkEvent ''PASS_TD'' ''A'' (Some ''B'')) = ''A''"
    "receiverId (mkEvent ''PASS_TD'' ''A'' (Some ''B'')) = Some ''B''"
    "type_e (mkEvent ''XP_2'' ''A'' None) = ''XP_2''"
    "playerId (mkEvent ''XP_2'' ''A'' None) = ''A''"
    by (simp_all add: mkEvent_def)
  have k: "receiverId (mkEvent t ''A'' None) = None" "type_e (mkEvent t ''A'' None) = t"
    "playerId (mkEvent t ''A'' None) = ''A''" for t
    by (simp_all add: mkEvent_def)
  have pl: "plainIds [] ([] @ mkEvent t ''A'' None # [])" for t
    by (rule plainIds_single) (simp add: objectPrototypeKeys_def)
  have z: "computeStats [] ([] @ []) = Inr \<lparr>own = Map.empty, proto = None\<rparr>"
    by (simp add: run_defs)
  from pass_td_then_xp2_scenario [where A = "''A''" and B = "''B''"
      and ?e1.0 = "mkEvent ''PASS_TD'' ''A'' (Some ''B'')" and ?e2.0 = "mkEvent ''XP_2'' ''A'' None"
      and ps = "[exPlayer ''A'', exPlayer ''B'']"] h plainIds_example
  have s1: "\<exists>r. computeStats [exPlayer ''A'', exPlayer ''B'']
             [mkEvent ''PASS_TD'' ''A'' (Some ''B''), mkEvent ''XP_2'' ''A'' None] = Inr r
         \<and> own r ''A''
             = Some (emptyStats\<lparr>passAtt := 1, passComp := 1, passTD := 1, xp2 := 1, points := 8\<rparr>)
         \<and> own r ''B'' = Some (emptyStats\<lparr>rec := 1, recTD := 1, points := 6\<rparr>)"
    by blast
  from pass_td_then_xp2_scenario [where e = "mkEvent ''PASS_COMP'' ''A'' None"
      and ps = "[]" and xs = "[]" and ys = "[]"] k pl z
  have s2: "computeStats [] ([] @ mkEvent ''PASS_COMP'' ''A'' None # [])
     = Inr \<lparr>own = [''A'' \<mapsto> emptyStats\<lparr>passAtt := 1, passComp := 1\<rparr>], proto = None\<rparr>"
    by (auto simp: Let_def bucketOr_def emptyStats_def)
  from pass_td_then_xp2_scenario [where e = "mkEvent ''PASS_TD'' ''A'' None"
      and ps = "[]" and xs = "[]" and ys = "[]"] k pl z
  have s3: "computeStats [] ([] @ mkEvent ''PASS_TD'' ''A'' None # [])
     = Inr \<lparr>own = [''A'' \<mapsto> emptyStats\<lparr>passAtt := 1, passComp := 1, passTD := 1, points := 6\<rparr>],
            proto = None\<rparr>"
    by (auto simp: Let_def bucketOr_def emptyStats_def)
  from plainIds_example s1 pl s2 s3 show ?thesis by blast
qed

text \<open>
  Claim C2 as stated fails: in the scenario the bucket of \<open>A\<close> is not the one with only
  \<^verbatim>\<open>passAtt\<close>, \<^verbatim>\<open>passComp\<close>, \<^verbatim>\<open>passTD\<close> and \<^verbatim>\<open>points\<close> set, since \<^verbatim>\<open>xp2\<close> is 1.
\<close>

theorem pass_td_then_xp2_counterexample:
  "computeStats [exPlayer ''A'', exPlayer ''B'']
      [mkEvent ''PASS_TD'' ''A'' (Some ''B''), mkEvent ''XP_2'' ''A'' None]
     = Inr \<lparr>own = [''A'' \<mapsto> emptyStats\<lparr>passAtt := 1, passComp := 1, passTD := 1, xp2 := 1,
                             points := 8\<rparr>,
                   ''B'' \<mapsto> emptyStats\<lparr>rec := 1, recTD := 1, points := 6\<rparr>],
            proto = None\<rparr>
   \<and> emptyStats\<lparr>passAtt := 1, passComp := 1, passTD := 1, xp2 := 1, points := 8\<rparr>
       \<noteq> emptyStats\<lparr>passAtt := 1, passComp := 1, passTD := 1, points := 8\<rparr>"
  by (simp add: run_defs fun_upd_twist)

text \<open>
  Claim C3. The claim is right about what the aggregation is meant to do, and the code
  breaks it: with a player whose id is \<^verbatim>\<open>__proto__\<close> in the roster, seeding replaces the
  prototype of \<^verbatim>\<open>byId\<close> by that player's bucket, and a later \<^verbatim>\<open>ensure("points")\<close> reads the
  inherited counter. After the rushing touchdown of \<^verbatim>\<open>__proto__\<close> the counter is 6, so
  \<^verbatim>\<open>ensure\<close> returns the number and the update throws; before it the counter is 0 and a
  bucket is made. The two orders of the same two events give different results.
\<close>

theorem order_matters_with_prototype_id:
  "mset [mkEvent ''RUSH_TD'' ''__proto__'' None, mkEvent ''RUSH_ATT'' ''points'' None]
     = mset [mkEvent ''RUSH_ATT'' ''points'' None, mkEvent ''RUSH_TD'' ''__proto__'' None]
   \<and> computeStats [exPlayer ''__proto__'']
      [mkEvent ''RUSH_TD'' ''__proto__'' None, mkEvent ''RUSH_ATT'' ''points'' None]
     = Inl TypeError
   \<and> computeStats [exPlayer ''__proto__'']
      [mkEvent ''RUSH_ATT'' ''points'' None, mkEvent ''RUSH_TD'' ''__proto__'' None]
     = Inr \<lparr>own = [''points'' \<mapsto> emptyStats\<lparr>rushAtt := 1\<rparr>],
            proto = Some (emptyStats\<lparr>rushAtt := 1, rushTD := 1, points := 6\<rparr>)\<rparr>"
  by (simp add: run_defs)

text \<open>
  Claim C4. The claim is right about what \<^verbatim>\<open>ensure\<close> is meant to do, and for an id such as
  \<^verbatim>\<open>ghost\<close> the code does it: the log \<^verbatim>\<open>[RUSH_ATT(player="ghost")]\<close> on an empty roster gives
  \<^verbatim>\<open>ghost\<close> a bucket with \<^verbatim>\<open>rushAtt\<close> 1. The code breaks it for ids that \<^verbatim>\<open>byId\<close> inherits. For
  the log \<^verbatim>\<open>[RUSH_ATT(player="constructor")]\<close> and an empty roster, \<^verbatim>\<open>byId["constructor"]\<close> is
  the function \<^verbatim>\<open>Object\<close>, which is truthy: no bucket is made and the result is empty. The
  same happens to a dangling receiver \<^verbatim>\<open>constructor\<close> of a completion. With a player
  \<^verbatim>\<open>__proto__\<close> in the roster, the dangling reference \<^verbatim>\<open>xp1\<close> after a conversion of that
  player reads the inherited counter 1, and the update of a number throws.
\<close>

theorem inherited_id_gets_no_bucket:
  "computeStats [] [mkEvent ''RUSH_ATT'' ''ghost'' None]
     = Inr \<lparr>own = [''ghost'' \<mapsto> emptyStats\<lparr>rushAtt := 1\<rparr>], proto = None\<rparr>
   \<and> computeStats [] [mkEvent ''RUSH_ATT'' ''constructor'' None]
     = Inr \<lparr>own = Map.empty, proto = None\<rparr>
   \<and> computeStats [exPlayer ''A''] [mkEvent ''PASS_COMP'' ''A'' (Some ''constructor'')]
     = Inr \<lparr>own = [''A'' \<mapsto> emptyStats\<lparr>passAtt := 1, passComp := 1\<rparr>], proto = None\<rparr>
   \<and> computeStats [exPlayer ''__proto__'']
      [mkEvent ''XP_1'' ''__proto__'' None, mkEvent ''RUSH_ATT'' ''xp1'' None]
     = Inl TypeError"
  by (simp add: run_defs)

text \<open>
  Claim C5. Deleting the player \<open>x\<close> removes every roster entry with that id, keeps the
  games, and keeps of each game's log exactly the events in which \<open>x\<close> is neither the
  \<^verbatim>\<open>playerId\<close> nor the \<^verbatim>\<open>receiverId\<close>. Afterwards no aggregation of the remaining roster
  with remaining events, taken from any of the games, returns a bucket keyed by \<open>x\<close>, as
  an own property or, for the id \<^verbatim>\<open>__proto__\<close>, as the prototype; neither does the box
  score of the selected game.
\<close>

theorem deletePlayer_cascades:
  "id_p ` set (players (deletePlayer x s)) = id_p ` set (players s) - {x}
   \<and> map id_g (games (deletePlayer x s)) = map id_g (games s)
   \<and> (\<forall>i < length (games s).
         events (games (deletePlayer x s) ! i)
           = filter (\<lambda>e. playerId e \<noteq> x \<and> receiverId e \<noteq> Some x) (events (games s ! i)))
   \<and> (\<forall>g \<in> set (games (deletePlayer x s)). \<forall>e \<in> set (events g).
         playerId e \<noteq> x \<and> receiverId e \<noteq> Some x)
   \<and> (set es \<subseteq> (\<Union>g \<in> set (games (deletePlayer x s)). set (events g)) \<longrightarrow>
         (\<forall>r. computeStats (players (deletePlayer x s)) es = Inr r \<longrightarrow>
            own r x = None \<and> (x = ''__proto__'' \<longrightarrow> proto r = None)))
   \<and> (\<forall>r. statsByPlayer (deletePlayer x s) = Inr r \<longrightarrow>
         own r x = None \<and> (x = ''__proto__'' \<longrightarrow> proto r = None))"
proof -
  let ?s = "deletePlayer x s"
  have a: "id_p ` set (players ?s) = id_p ` set (players s) - {x}"
    by (auto simp: deletePlayer_def)
  have b: "map id_g (games ?s) = map id_g (games s)"
    by (simp add: deletePlayer_def comp_def)
  have c: "\<forall>i < length (games s). events (games ?s ! i)
           = filter (\<lambda>e. playerId e \<noteq> x \<and> receiverId e \<noteq> Some x) (events (games s ! i))"
    by (simp add: deletePlayer_def)
  have d: "\<forall>g \<in> set (games ?s). \<forall>e \<in> set (events g). playerId e \<noteq> x \<and> receiverId e \<noteq> Some x"
    by (auto simp: deletePlayer_def)
  have e: "own r x = None \<and> (x = ''__proto__'' \<longrightarrow> proto r = None)"
    if sub: "set es \<subseteq> (\<Union>g \<in> set (games ?s). set (events g))"
      and run: "computeStats (players ?s) es = Inr r" for es r
  proof -
    from sub d have n: "\<forall>e \<in> set es. playerId e \<noteq> x \<and> receiverId e \<noteq> Some x" by blast
    from a have nx: "x \<notin> id_p ` set (players ?s)" by blast
    from computeStats_own_dom [OF run] n nx have "x \<notin> dom (own r)" by blast
    moreover from computeStats_own_dom [OF run] nx
    have "x = ''__proto__'' \<longrightarrow> proto r = None" by blast
    ultimately show ?thesis by blast
  qed
  have f: "own r x = None \<and> (x = ''__proto__'' \<longrightarrow> proto r = None)"
    if run: "statsByPlayer ?s = Inr r" for r
  proof (cases "selectedGame ?s")
    case None
    with run show ?thesis by (auto simp: statsByPlayer_def emptyById_def)
  next
    case (Some g)
    then have "g \<in> set (games ?s)"
      by (auto simp: selectedGame_def find_Some_iff)
    then have "set (events g) \<subseteq> (\<Union>g \<in> set (games ?s). set (events g))" by blast
    moreover from run Some have "computeStats (players ?s) (events g) = Inr r"
      by (simp add: statsByPlayer_def)
    ultimately show ?thesis by (rule e)
  qed
  from e have e': "set es \<subseteq> (\<Union>g \<in> set (games ?s). set (events g)) \<longrightarrow>
         (\<forall>r. computeStats (players ?s) es = Inr r \<longrightarrow>
            own r x = None \<and> (x = ''__proto__'' \<longrightarrow> proto r = None))"
    by (intro impI allI)
  from f have f': "\<forall>r. statsByPlayer ?s = Inr r \<longrightarrow>
         own r x = None \<and> (x = ''__proto__'' \<longrightarrow> proto r = None)"
    by (intro impI allI)
  show ?thesis
    using a b c d e' f' by (intro conjI) assumption+
qed

theorem deletePlayer_cascades_witness:
  "games (deletePlayer ''A'' (exStore [exPlayer ''A'', exPlayer ''C''] NFL_FLAG
       [mkEvent ''RUSH_TD'' ''A'' None, mkEvent ''PASS_TD'' ''C'' (Some ''A''), mkEvent ''XP_1'' ''C'' None]))
     = [exGame NFL_FLAG [mkEvent ''XP_1'' ''C'' None]]
   \<and> players (deletePlayer ''A'' (exStore [exPlayer ''A'', exPlayer ''C''] NFL_FLAG
       [mkEvent ''RUSH_TD'' ''A'' None, mkEvent ''PASS_TD'' ''C'' (Some ''A''), mkEvent ''XP_1'' ''C'' None]))
     = [exPlayer ''C'']
   \<and> computeStats [exPlayer ''C''] [mkEvent ''XP_1'' ''C'' None]
     = Inr \<lparr>own = [''C'' \<mapsto> emptyStats\<lparr>xp1 := 1, points := 1\<rparr>], proto = None\<rparr>
   \<and> statsByPlayer (deletePlayer ''A'' (exStore [exPlayer ''A'', exPlayer ''C''] NFL_FLAG
       [mkEvent ''RUSH_TD'' ''A'' None, mkEvent ''PASS_TD'' ''C'' (Some ''A''), mkEvent ''XP_1'' ''C'' None]))
     = Inr \<lparr>own = [''C'' \<mapsto> emptyStats\<lparr>xp1 := 1, points := 1\<rparr>], proto = None\<rparr>
   \<and> own \<lparr>own = [''C'' \<mapsto> emptyStats\<lparr>xp1 := 1, points := 1\<rparr>], proto = None\<rparr> ''A'' = None"
proof -
  let ?st = "exStore [exPlayer ''A'', exPlayer ''C''] NFL_FLAG
       [mkEvent ''RUSH_TD'' ''A'' None, mkEvent ''PASS_TD'' ''C'' (Some ''A''), mkEvent ''XP_1'' ''C'' None]"
  let ?r = "\<lparr>own = [''C'' \<mapsto> emptyStats\<lparr>xp1 := 1, points := 1\<rparr>], proto = None\<rparr>"
  have g: "games (deletePlayer ''A'' ?st) = [exGame NFL_FLAG [mkEvent ''XP_1'' ''C'' None]]"
    by (simp add: deletePlayer_def exStore_def exGame_def mkEvent_def)
  have p: "players (deletePlayer ''A'' ?st) = [exPlayer ''C'']"
    by (simp add: deletePlayer_def exStore_def exPlayer_def)
  have u: "ui (deletePlayer ''A'' ?st) = \<lparr>selectedGameId = Some ''g1''\<rparr>"
    by (simp add: deletePlayer_def exStore_def)
  have c: "computeStats [exPlayer ''C''] [mkEvent ''XP_1'' ''C'' None] = Inr ?r"
    by (simp add: run_defs)
  have v: "statsByPlayer (deletePlayer ''A'' ?st) = Inr ?r"
    by (simp add: statsByPlayer_def selectedGame_def g p u exGame_def c)
  have sub: "set [mkEvent ''XP_1'' ''C'' None]
      \<subseteq> (\<Union>g \<in> set (games (deletePlayer ''A'' ?st)). set (events g))"
    by (simp add: g exGame_def)
  from deletePlayer_cascades [where x = "''A''" and s = ?st
      and es = "[mkEvent ''XP_1'' ''C'' None]"] sub c v p
  have "own ?r ''A'' = None"
    by auto
  with g p c v show ?thesis by blast
qed

text \<open>
  Claim C6, as amended. \<^verbatim>\<open>loadStore\<close> returns a store for every stored text: a missing or
  empty text, a text that does not parse and the document \<^verbatim>\<open>null\<close> give the empty store. For
  a document that parses to a value other than \<^verbatim>\<open>null\<close>, load and import set the same store,
  with these defaults: \<^verbatim>\<open>players\<close> or \<^verbatim>\<open>games\<close> that is not a list becomes the empty list, and
  so does a game's \<^verbatim>\<open>events\<close>; a game's \<^verbatim>\<open>ruleSet\<close> that is missing or falsy (\<^verbatim>\<open>null\<close>,
  \<^verbatim>\<open>false\<close>, \<^verbatim>\<open>0\<close>, the empty string) becomes \<^verbatim>\<open>NFL_FLAG\<close>, and any other value is kept as
  it is; a document with none of \<^verbatim>\<open>players\<close>, \<^verbatim>\<open>games\<close> and \<^verbatim>\<open>ui\<close> gives the empty store.
\<close>

theorem malformed_document_defaults:
  "(raw = None \<or> raw = Some [] \<or> (\<exists>t. raw = Some t \<and> (parse t = None \<or> parse t = Some JNull))
      \<longrightarrow> loadStore parse raw = emptyStore)
   \<and> (parse t = Some parsed \<and> parsed \<noteq> JNull \<longrightarrow>
        (\<exists>s. shapeGuards parsed = Inr s \<and> importJSON parse t = Inr s
             \<and> (t \<noteq> [] \<longrightarrow> loadStore parse (Some t) = s)))
   \<and> (shapeGuards parsed = Inr s \<longrightarrow>
        ((\<forall>xs. getProp parsed ''players'' \<noteq> Some (JArr xs)) \<longrightarrow> players_r s = [])
      \<and> (\<forall>xs. getProp parsed ''players'' = Some (JArr xs) \<longrightarrow> players_r s = xs)
      \<and> ((\<forall>gs. getProp parsed ''games'' \<noteq> Some (JArr gs)) \<longrightarrow> games_r s = [])
      \<and> (\<forall>gs. getProp parsed ''games'' = Some (JArr gs) \<longrightarrow> games_r s = map guardGame gs)
      \<and> (getProp parsed ''players'' = None \<and> getProp parsed ''games'' = None
           \<and> getProp parsed ''ui'' = None \<longrightarrow> s = emptyStore))
   \<and> (\<not> truthy (getProp g ''ruleSet'') \<longrightarrow>
        getProp (guardGame g) ''ruleSet'' = Some (JStr ''NFL_FLAG''))
   \<and> (truthy (getProp g ''ruleSet'') \<longrightarrow>
        getProp (guardGame g) ''ruleSet'' = getProp g ''ruleSet'')
   \<and> ((\<forall>es. getProp g ''events'' \<noteq> Some (JArr es)) \<longrightarrow>
        getProp (guardGame g) ''events'' = Some (JArr []))
   \<and> (\<forall>es. getProp g ''events'' = Some (JArr es) \<longrightarrow>
        getProp (guardGame g) ''events'' = Some (JArr es))"
proof -
  have a: "loadStore parse raw = emptyStore"
    if "raw = None \<or> raw = Some [] \<or> (\<exists>t. raw = Some t \<and> (parse t = None \<or> parse t = Some JNull))"
    using that by (auto simp: loadStore_def shapeGuards_def)
  have b: "\<exists>s. shapeGuards parsed = Inr s \<and> importJSON parse t = Inr s
             \<and> (t \<noteq> [] \<longrightarrow> loadStore parse (Some t) = s)"
    if "parse t = Some parsed" "parsed \<noteq> JNull"
    using that shapeGuards_Inr [OF that(2)] by (auto simp: importJSON_def loadStore_def)
  have c: "((\<forall>xs. getProp parsed ''players'' \<noteq> Some (JArr xs)) \<longrightarrow> players_r s = [])
      \<and> (\<forall>xs. getProp parsed ''players'' = Some (JArr xs) \<longrightarrow> players_r s = xs)
      \<and> ((\<forall>gs. getProp parsed ''games'' \<noteq> Some (JArr gs)) \<longrightarrow> games_r s = [])
      \<and> (\<forall>gs. getProp parsed ''games'' = Some (JArr gs) \<longrightarrow> games_r s = map guardGame gs)
      \<and> (getProp parsed ''players'' = None \<and> getProp parsed ''games'' = None
           \<and> getProp parsed ''ui'' = None \<longrightarrow> s = emptyStore)"
    if "shapeGuards parsed = Inr s"
    using that
    by (auto simp: shapeGuards_def emptyStore_def split: if_splits option.splits json.splits)
  have d: "getProp (guardGame g) ''ruleSet'' = Some (JStr ''NFL_FLAG'')"
    if "\<not> truthy (getProp g ''ruleSet'')"
    using that by (simp add: guardGame_ruleSet)
  have e: "getProp (guardGame g) ''ruleSet'' = getProp g ''ruleSet''"
    if "truthy (getProp g ''ruleSet'')"
    using that by (cases "getProp g ''ruleSet''") (simp_all add: guardGame_ruleSet)
  have f: "getProp (guardGame g) ''events'' = Some (JArr [])"
    if "\<forall>es. getProp g ''events'' \<noteq> Some (JArr es)"
    using that by (simp add: guardGame_events split: option.splits json.splits)
  have h: "\<forall>es. getProp g ''events'' = Some (JArr es) \<longrightarrow>
        getProp (guardGame g) ''events'' = Some (JArr es)"
    by (simp add: guardGame_events)
  from a b c d e f h show ?thesis by blast
qed

theorem malformed_document_defaults_witness:
  "exParse ''doc'' \<noteq> None \<and> exParse ''doc'' \<noteq> Some JNull
   \<and> loadStore exParse (Some ''doc'')
       = \<lparr>players_r = [],
          games_r = [JObj [(''opponent'', JStr ''Owls''), (''ruleSet'', JStr ''NFL_FLAG''),
                           (''events'', JArr [])],
                     JObj [(''ruleSet'', JStr ''NFL_FLAG''), (''events'', JArr [])]],
          ui_r = JObj []\<rparr>
   \<and> importJSON exParse ''doc'' = Inr (loadStore exParse (Some ''doc''))
   \<and> loadStore exParse (Some ''null'') = emptyStore
   \<and> loadStore exParse (Some ''{'') = emptyStore"
proof -
  let ?doc = "JObj [(''players'', JStr ''x''),
                    (''games'', JArr [JObj [(''opponent'', JStr ''Owls''), (''ruleSet'', JNull),
                                            (''events'', JNum 3)],
                                      JNull])]"
  have p: "exParse ''doc'' = Some ?doc" "?doc \<noteq> JNull" "''doc'' \<noteq> []"
    by (simp_all add: exParse_def)
  have n: "exParse ''null'' = Some JNull" "exParse ''{'' = None"
    by (simp_all add: exParse_def)
  have v: "shapeGuards ?doc
       = Inr \<lparr>players_r = [],
          games_r = [JObj [(''opponent'', JStr ''Owls''), (''ruleSet'', JStr ''NFL_FLAG''),
                           (''events'', JArr [])],
                     JObj [(''ruleSet'', JStr ''NFL_FLAG''), (''events'', JArr [])]],
          ui_r = JObj []\<rparr>"
    by (simp add: shapeGuards_def guardGame_def)
  from malformed_document_defaults [where parse = exParse and t = "''doc''" and parsed = ?doc] p
  obtain s where s: "shapeGuards ?doc = Inr s" "importJSON exParse ''doc'' = Inr s"
    "loadStore exParse (Some ''doc'') = s"
    by blast
  from malformed_document_defaults [where parse = exParse and raw = "Some ''null''"] n
  have l1: "loadStore exParse (Some ''null'') = emptyStore" by blast
  from malformed_document_defaults [where parse = exParse and raw = "Some ''{''"] n
  have l2: "loadStore exParse (Some ''{'') = emptyStore" by blast
  from s v l1 l2 p show ?thesis by simp
qed


text \<open>
  Claim C6 as stated fails twice. A \<^verbatim>\<open>ruleSet\<close> that is not one of the three tags but is
  truthy, such as \<^verbatim>\<open>"XFL"\<close>, is kept. And \<^verbatim>\<open>importJSON\<close>, which has no \<^verbatim>\<open>try\<close>, ends with
  the TypeError for the document \<^verbatim>\<open>null\<close> and with the SyntaxError for a text that does not
  parse.
\<close>

theorem malformed_document_counterexample:
  "JStr ''XFL'' \<notin> JStr ` set ruleSetTags
   \<and> shapeGuards (JObj [(''games'', JArr [JObj [(''ruleSet'', JStr ''XFL'')]])])
       = Inr \<lparr>players_r = [],
              games_r = [JObj [(''ruleSet'', JStr ''XFL''), (''events'', JArr [])]],
              ui_r = JObj []\<rparr>
   \<and> importJSON exParse ''null'' = Inl TypeError
   \<and> importJSON exParse ''{'' = Inl SyntaxError"
  by (simp add: ruleSetTags_def shapeGuards_def guardGame_def importJSON_def exParse_def)

text \<open>
  Claim C7, as amended. For a roster and a log in which no id is a name inherited from
  \<^verbatim>\<open>Object.prototype\<close>, aggregating one more \<^verbatim>\<open>PAT_RET_2\<close> event adds 2 points to its player,
  whatever the rule-set. For a rule-set variant whose configuration allows the PAT return
  (\<^verbatim>\<open>allowPatReturn\<close>, which only \<^verbatim>\<open>FARM_LEAGUE\<close> does), \<^verbatim>\<open>patReturnPoints\<close> is that number; for
  \<^verbatim>\<open>NEXT_LEVEL\<close> and \<^verbatim>\<open>NFL_FLAG\<close>, which do not allow it, the configured value is 0, while the
  engine still adds 2.
\<close>

theorem patReturnPoints_when_allowed:
  assumes "plainIds ps (xs @ e # ys)" and "type_e e = ''PAT_RET_2''"
  shows "\<exists>r r'. computeStats ps (xs @ e # ys) = Inr r \<and> computeStats ps (xs @ ys) = Inr r'
           \<and> points (bucketOr (own r) (playerId e)) = points (bucketOr (own r') (playerId e)) + 2
           \<and> (allowPatReturn (RULESET_CONFIG v) \<longrightarrow>
                v = FARM_LEAGUE
                \<and> points (bucketOr (own r) (playerId e))
                    = points (bucketOr (own r') (playerId e)) + patReturnPoints (RULESET_CONFIG v))
           \<and> (v = NEXT_LEVEL \<or> v = NFL_FLAG \<longrightarrow>
                \<not> allowPatReturn (RULESET_CONFIG v) \<and> patReturnPoints (RULESET_CONFIG v) = 0)"
proof -
  have g: "points (bucketOr (applyDelta (aggregate ps (xs @ ys)) e) (playerId e))
      = points (bucketOr (aggregate ps (xs @ ys)) (playerId e)) + 2"
    by (simp add: pat_return_gain [OF assms(2)] addStats_def emptyStats_def)
  have c: "(allowPatReturn (RULESET_CONFIG v) \<longrightarrow>
             v = FARM_LEAGUE \<and> patReturnPoints (RULESET_CONFIG v) = 2)
      \<and> (v = NEXT_LEVEL \<or> v = NFL_FLAG \<longrightarrow>
             \<not> allowPatReturn (RULESET_CONFIG v) \<and> patReturnPoints (RULESET_CONFIG v) = 0)"
    by (cases v) simp_all
  from computeStats_plain_remove [OF assms(1)] g c show ?thesis by simp
qed

theorem patReturnPoints_when_allowed_witness:
  "plainIds [] ([] @ mkEvent ''PAT_RET_2'' ''C'' None # [])
   \<and> type_e (mkEvent ''PAT_RET_2'' ''C'' None) = ''PAT_RET_2''
   \<and> allowPatReturn (RULESET_CONFIG FARM_LEAGUE)
   \<and> (\<exists>r r'. computeStats [] ([] @ mkEvent ''PAT_RET_2'' ''C'' None # []) = Inr r
         \<and> computeStats [] ([] @ []) = Inr r'
         \<and> points (bucketOr (own r) ''C'')
             = points (bucketOr (own r') ''C'') + patReturnPoints (RULESET_CONFIG FARM_LEAGUE))
   \<and> \<not> allowPatReturn (RULESET_CONFIG NFL_FLAG)
   \<and> patReturnPoints (RULESET_CONFIG NFL_FLAG) = 0"
proof -
  have pl: "plainIds [] ([] @ mkEvent ''PAT_RET_2'' ''C'' None # [])"
    by (rule plainIds_single) (simp add: objectPrototypeKeys_def)
  have a: "allowPatReturn (RULESET_CONFIG FARM_LEAGUE)" by simp
  have t: "type_e (mkEvent ''PAT_RET_2'' ''C'' None) = ''PAT_RET_2''" by (simp add: mkEvent_def)
  have p: "playerId (mkEvent ''PAT_RET_2'' ''C'' None) = ''C''" by (simp add: mkEvent_def)
  from patReturnPoints_when_allowed [OF pl t, of FARM_LEAGUE] a p
  have 1: "\<exists>r r'. computeStats [] ([] @ mkEvent ''PAT_RET_2'' ''C'' None # []) = Inr r
         \<and> computeStats [] ([] @ []) = Inr r'
         \<and> points (bucketOr (own r) ''C'')
             = points (bucketOr (own r') ''C'') + patReturnPoints (RULESET_CONFIG FARM_LEAGUE)"
    by auto
  from patReturnPoints_when_allowed [OF pl t, of NFL_FLAG]
  have 2: "\<not> allowPatReturn (RULESET_CONFIG NFL_FLAG)
      \<and> patReturnPoints (RULESET_CONFIG NFL_FLAG) = 0"
    by blast
  from pl t a 1 2 show ?thesis by blast
qed

text \<open>
  Claim C7 as stated fails for \<^verbatim>\<open>NFL_FLAG\<close> (and likewise \<^verbatim>\<open>NEXT_LEVEL\<close>): the configuration
  says 0 points, the engine adds 2.
\<close>

theorem patReturnPoints_mismatch_counterexample:
  "computeStats [] [mkEvent ''PAT_RET_2'' ''C'' None]
     = Inr \<lparr>own = [''C'' \<mapsto> emptyStats\<lparr>patRet2 := 1, points := 2\<rparr>], proto = None\<rparr>
   \<and> computeStats [] [] = Inr \<lparr>own = Map.empty, proto = None\<rparr>
   \<and> points (bucketOr [''C'' \<mapsto> emptyStats\<lparr>patRet2 := 1, points := 2\<rparr>] ''C'')
       \<noteq> points (bucketOr Map.empty ''C'') + patReturnPoints (RULESET_CONFIG NFL_FLAG)"
  by (simp add: run_defs bucketOr_def numeral_2_eq_2)

text \<open>
  Claim C8. The claim is right about what the aggregation is meant to do: the box score
  reads the roster and the events of the selected game and not its rule-set, so binding
  other rule-sets to the games leaves it as it is, and the log \<^verbatim>\<open>[PAT_RET_2(player=C)]\<close>
  gives \<open>C\<close> the bucket \<^verbatim>\<open>{patRet2: 1, points: 2}\<close> under an allowing and under a
  non-allowing rule-set. The code breaks the scenario for a player whose id \<^verbatim>\<open>byId\<close>
  inherits: for the log \<^verbatim>\<open>[PAT_RET_2(player="constructor")]\<close>, under both rule-sets alike,
  \<^verbatim>\<open>ensure\<close> returns the function \<^verbatim>\<open>Object\<close> and the box score has no bucket for the player.
\<close>

theorem pat_return_of_inherited_id:
  "statsByPlayer (s\<lparr>games := map (\<lambda>g. g\<lparr>ruleSet := f g\<rparr>) (games s)\<rparr>) = statsByPlayer s
   \<and> statsByPlayer (exStore [] FARM_LEAGUE [mkEvent ''PAT_RET_2'' ''C'' None])
     = Inr \<lparr>own = [''C'' \<mapsto> emptyStats\<lparr>patRet2 := 1, points := 2\<rparr>], proto = None\<rparr>
   \<and> statsByPlayer (exStore [] NFL_FLAG [mkEvent ''PAT_RET_2'' ''C'' None])
     = Inr \<lparr>own = [''C'' \<mapsto> emptyStats\<lparr>patRet2 := 1, points := 2\<rparr>], proto = None\<rparr>
   \<and> statsByPlayer (exStore [] FARM_LEAGUE [mkEvent ''PAT_RET_2'' ''constructor'' None])
     = Inr \<lparr>own = Map.empty, proto = None\<rparr>
   \<and> statsByPlayer (exStore [] NFL_FLAG [mkEvent ''PAT_RET_2'' ''constructor'' None])
     = Inr \<lparr>own = Map.empty, proto = None\<rparr>"
proof -
  have e: "statsByPlayer (exStore [] v [mkEvent t p None]) = computeStats [] [mkEvent t p None]"
    for v t p
    by (simp add: statsByPlayer_def selectedGame_def exStore_def exGame_def)
  have c: "computeStats [] [mkEvent ''PAT_RET_2'' ''C'' None]
     = Inr \<lparr>own = [''C'' \<mapsto> emptyStats\<lparr>patRet2 := 1, points := 2\<rparr>], proto = None\<rparr>"
    by (simp add: run_defs numeral_2_eq_2)
  have k: "computeStats [] [mkEvent ''PAT_RET_2'' ''constructor'' None]
     = Inr \<lparr>own = Map.empty, proto = None\<rparr>"
    by (simp add: run_defs)
  show ?thesis
    by (simp only: statsByPlayer_ruleSet e c k simp_thms)
qed

text \<open>
  Claim C9, as amended. For a roster and an event list in which no id is a name inherited
  from \<^verbatim>\<open>Object.prototype\<close>, an event whose type is none of the 15 tags the switch knows
  leaves every counter of every player as it is, but it is not a no-op on the mapping: the
  loop calls \<^verbatim>\<open>ensure(e.playerId)\<close> before the switch, so the result is the mapping for the
  list without the event, extended by a zero bucket for the event's player when that
  player has no bucket otherwise. When the player already has a bucket the two results
  are equal. The event itself stays in the log as it is: import and load keep a game's
  list of events verbatim whatever the types, and deleting another player keeps it.
\<close>

theorem unknown_type_adds_only_zero_bucket:
  assumes "type_e e \<notin> set eventTypes" and "plainIds ps (xs @ e # ys)"
  shows "\<exists>r. computeStats ps (xs @ ys) = Inr r
           \<and> computeStats ps (xs @ e # ys)
               = Inr (r\<lparr>own := (own r)(playerId e \<mapsto> bucketOr (own r) (playerId e))\<rparr>)
           \<and> (\<forall>pid. bucketOr ((own r)(playerId e \<mapsto> bucketOr (own r) (playerId e))) pid
                 = bucketOr (own r) pid)
           \<and> (playerId e \<in> dom (own r) \<longrightarrow>
                computeStats ps (xs @ e # ys) = computeStats ps (xs @ ys))
           \<and> (\<forall>evs. getProp g ''events'' = Some (JArr evs) \<longrightarrow>
                getProp (guardGame g) ''events'' = Some (JArr evs))
           \<and> (gm \<in> set (games s) \<and> e \<in> set (events gm) \<and> playerId e \<noteq> x
                \<and> receiverId e \<noteq> Some x \<longrightarrow>
                (\<exists>gm' \<in> set (games (deletePlayer x s)).
                   id_g gm' = id_g gm \<and> e \<in> set (events gm')))"
proof -
  let ?m = "aggregate ps (xs @ ys)"
  have 1: "computeStats ps (xs @ ys) = Inr \<lparr>own = ?m, proto = None\<rparr>"
    and 2: "computeStats ps (xs @ e # ys)
      = Inr \<lparr>own = ?m(playerId e \<mapsto> bucketOr ?m (playerId e)), proto = None\<rparr>"
    using computeStats_plain_remove [OF assms(2)] by (simp_all add: applyDelta_unknown [OF assms(1)])
  have 3: "\<forall>pid. bucketOr (?m(playerId e \<mapsto> bucketOr ?m (playerId e))) pid = bucketOr ?m pid"
    by (simp add: bucketOr_upd)
  have 4: "playerId e \<in> dom ?m \<longrightarrow> ?m(playerId e \<mapsto> bucketOr ?m (playerId e)) = ?m"
    by (auto simp: bucketOr_def fun_upd_idem)
  have 5: "\<forall>evs. getProp g ''events'' = Some (JArr evs) \<longrightarrow>
      getProp (guardGame g) ''events'' = Some (JArr evs)"
    by (simp add: guardGame_events)
  have 6: "gm \<in> set (games s) \<and> e \<in> set (events gm) \<and> playerId e \<noteq> x
      \<and> receiverId e \<noteq> Some x \<longrightarrow>
      (\<exists>gm' \<in> set (games (deletePlayer x s)). id_g gm' = id_g gm \<and> e \<in> set (events gm'))"
    using deletePlayer_keeps [of gm s e x] by blast
  show ?thesis
  proof (intro exI [of _ "\<lparr>own = ?m, proto = None\<rparr>"] conjI)
    show "computeStats ps (xs @ ys) = Inr \<lparr>own = ?m, proto = None\<rparr>" by (rule 1)
    show "computeStats ps (xs @ e # ys)
        = Inr (\<lparr>own = ?m, proto = None\<rparr>\<lparr>own := (own \<lparr>own = ?m, proto = None\<rparr>)
            (playerId e \<mapsto> bucketOr (own \<lparr>own = ?m, proto = None\<rparr>) (playerId e))\<rparr>)"
      using 2 by simp
    show "\<forall>pid. bucketOr ((own \<lparr>own = ?m, proto = None\<rparr>)
            (playerId e \<mapsto> bucketOr (own \<lparr>own = ?m, proto = None\<rparr>) (playerId e))) pid
          = bucketOr (own \<lparr>own = ?m, proto = None\<rparr>) pid"
      using 3 by simp
    show "playerId e \<in> dom (own \<lparr>own = ?m, proto = None\<rparr>) \<longrightarrow>
        computeStats ps (xs @ e # ys) = computeStats ps (xs @ ys)"
      using 1 2 4 by simp
    show "\<forall>evs. getProp g ''events'' = Some (JArr evs) \<longrightarrow>
        getProp (guardGame g) ''events'' = Some (JArr evs)"
      by (rule 5)
    show "gm \<in> set (games s) \<and> e \<in> set (events gm) \<and> playerId e \<noteq> x
        \<and> receiverId e \<noteq> Some x \<longrightarrow>
        (\<exists>gm' \<in> set (games (deletePlayer x s)). id_g gm' = id_g gm \<and> e \<in> set (events gm'))"
      by (rule 6)
  qed
qed

theorem unknown_type_adds_only_zero_bucket_witness:
  "type_e (mkEvent ''FUMBLE'' ''A'' None) \<notin> set eventTypes
   \<and> plainIds [exPlayer ''A''] ([] @ mkEvent ''FUMBLE'' ''A'' None # [])
   \<and> computeStats [exPlayer ''A''] ([] @ [])
       = Inr \<lparr>own = [''A'' \<mapsto> emptyStats], proto = None\<rparr>
   \<and> computeStats [exPlayer ''A''] ([] @ mkEvent ''FUMBLE'' ''A'' None # [])
       = computeStats [exPlayer ''A''] ([] @ [])
   \<and> getProp (guardGame (JObj [(''events'', JArr [JObj [(''type'', JStr ''FUMBLE'')]])])) ''events''
       = Some (JArr [JObj [(''type'', JStr ''FUMBLE'')]])
   \<and> (\<exists>gm' \<in> set (games (deletePlayer ''B''
            (exStore [exPlayer ''A''] NFL_FLAG [mkEvent ''FUMBLE'' ''A'' None]))).
         mkEvent ''FUMBLE'' ''A'' None \<in> set (events gm'))"
proof -
  let ?e = "mkEvent ''FUMBLE'' ''A'' None"
  let ?g = "JObj [(''events'', JArr [JObj [(''type'', JStr ''FUMBLE'')]])]"
  let ?gm = "exGame NFL_FLAG [?e]"
  let ?s = "exStore [exPlayer ''A''] NFL_FLAG [?e]"
  have t: "type_e ?e \<notin> set eventTypes"
    by (simp add: mkEvent_def eventTypes_def)
  have pl: "plainIds [exPlayer ''A''] ([] @ ?e # [])"
    by (simp add: plainIds_def objectPrototypeKeys_def exPlayer_def mkEvent_def)
  have z: "computeStats [exPlayer ''A''] ([] @ [])
       = Inr \<lparr>own = [''A'' \<mapsto> emptyStats], proto = None\<rparr>"
    by (simp add: run_defs)
  have p: "playerId ?e = ''A''" "receiverId ?e \<noteq> Some ''B''" by (simp_all add: mkEvent_def)
  have g: "getProp ?g ''events'' = Some (JArr [JObj [(''type'', JStr ''FUMBLE'')]])" by simp
  have m: "?gm \<in> set (games ?s)" "?e \<in> set (events ?gm)" "''A'' \<noteq> ''B''"
    by (simp_all add: exStore_def exGame_def)
  note w = unknown_type_adds_only_zero_bucket [OF t pl, where g = ?g and gm = ?gm and s = ?s
      and x = "''B''"]
  from w z p have 1: "computeStats [exPlayer ''A''] ([] @ ?e # [])
       = computeStats [exPlayer ''A''] ([] @ [])"
    by (auto simp: bucketOr_def)
  from w g have 2: "getProp (guardGame ?g) ''events''
       = Some (JArr [JObj [(''type'', JStr ''FUMBLE'')]])"
    by blast
  from w m p have 3: "\<exists>gm' \<in> set (games (deletePlayer ''B'' ?s)). ?e \<in> set (events gm')"
    by auto
  from t pl z 1 2 3 show ?thesis by blast
qed

text \<open>
  Claim C9 as stated fails: on an empty roster, an event of an unknown type for the player
  \<^verbatim>\<open>ghost\<close> yields a mapping with a zero bucket for \<^verbatim>\<open>ghost\<close>, the empty log yields none.
\<close>

theorem unknown_type_not_noop_counterexample:
  "type_e (mkEvent ''FUMBLE'' ''ghost'' None) \<notin> set eventTypes
   \<and> computeStats [] [mkEvent ''FUMBLE'' ''ghost'' None]
       = Inr \<lparr>own = [''ghost'' \<mapsto> emptyStats], proto = None\<rparr>
   \<and> computeStats [] [] = Inr \<lparr>own = Map.empty, proto = None\<rparr>
   \<and> computeStats [] [mkEvent ''FUMBLE'' ''ghost'' None] \<noteq> computeStats [] []"
proof -
  have a: "computeStats [] [mkEvent ''FUMBLE'' ''ghost'' None]
       = Inr \<lparr>own = [''ghost'' \<mapsto> emptyStats], proto = None\<rparr>"
    by (simp add: run_defs)
  have b: "computeStats [] [] = Inr \<lparr>own = Map.empty, proto = None\<rparr>"
    by (simp add: run_defs)
  have "[''ghost'' \<mapsto> emptyStats] ''ghost'' \<noteq> (Map.empty :: Buckets) ''ghost''" by simp
  then have "[''ghost'' \<mapsto> emptyStats] \<noteq> (Map.empty :: Buckets)" by metis
  with a b have "computeStats [] [mkEvent ''FUMBLE'' ''ghost'' None] \<noteq> computeStats [] []"
    by simp
  with a b show ?thesis by (simp add: mkEvent_def eventTypes_def)
qed

text \<open>
  Claim C10, as amended. For a roster and an event list in which no id is a name inherited
  from \<^verbatim>\<open>Object.prototype\<close>: when a \<^verbatim>\<open>PASS_COMP\<close> or \<^verbatim>\<open>PASS_TD\<close> event has a \<^verbatim>\<open>receiverId\<close> equal to
  its \<^verbatim>\<open>playerId\<close>, and that id is not the empty string, both effects go to the one bucket
  of that player: a touchdown pass to oneself adds 1 to \<^verbatim>\<open>passAtt\<close>, \<^verbatim>\<open>passComp\<close>, \<^verbatim>\<open>passTD\<close>,
  \<^verbatim>\<open>rec\<close> and \<^verbatim>\<open>recTD\<close> and 12 to \<^verbatim>\<open>points\<close>; a completion to oneself adds 1 to \<^verbatim>\<open>passAtt\<close>,
  \<^verbatim>\<open>passComp\<close> and \<^verbatim>\<open>rec\<close>. No other bucket changes.
\<close>

theorem self_targeted_pass:
  assumes "receiverId e = Some (playerId e)" and "playerId e \<noteq> []"
    and "plainIds ps (xs @ e # ys)"
  shows "\<exists>r. computeStats ps (xs @ ys) = Inr r
          \<and> (type_e e = ''PASS_TD'' \<longrightarrow>
               computeStats ps (xs @ e # ys)
                 = Inr (r\<lparr>own := (let s = bucketOr (own r) (playerId e) in
                     (own r)(playerId e \<mapsto> s\<lparr>passAtt := passAtt s + 1,
                       passComp := passComp s + 1, passTD := passTD s + 1, rec := rec s + 1,
                       recTD := recTD s + 1, points := points s + 12\<rparr>))\<rparr>))
          \<and> (type_e e = ''PASS_COMP'' \<longrightarrow>
               computeStats ps (xs @ e # ys)
                 = Inr (r\<lparr>own := (let s = bucketOr (own r) (playerId e) in
                     (own r)(playerId e \<mapsto> s\<lparr>passAtt := passAtt s + 1,
                       passComp := passComp s + 1, rec := rec s + 1\<rparr>))\<rparr>))"
  using computeStats_plain_remove [OF assms(3)]
    pass_td_to_self [OF assms(1,2), of "aggregate ps (xs @ ys)"]
    pass_comp_to_self [OF assms(1,2), of "aggregate ps (xs @ ys)"]
  by simp

theorem self_targeted_pass_witness:
  "receiverId (mkEvent ''PASS_TD'' ''A'' (Some ''A'')) = Some (playerId (mkEvent ''PASS_TD'' ''A'' (Some ''A'')))
   \<and> playerId (mkEvent ''PASS_TD'' ''A'' (Some ''A'')) \<noteq> []
   \<and> plainIds [] ([] @ mkEvent ''PASS_TD'' ''A'' (Some ''A'') # [])
   \<and> computeStats [] ([] @ mkEvent ''PASS_TD'' ''A'' (Some ''A'') # [])
       = Inr \<lparr>own = [''A'' \<mapsto> emptyStats\<lparr>passAtt := 1, passComp := 1, passTD := 1, rec := 1,
                               recTD := 1, points := 12\<rparr>],
              proto = None\<rparr>
   \<and> plainIds [] ([] @ mkEvent ''PASS_COMP'' ''A'' (Some ''A'') # [])
   \<and> computeStats [] ([] @ mkEvent ''PASS_COMP'' ''A'' (Some ''A'') # [])
       = Inr \<lparr>own = [''A'' \<mapsto> emptyStats\<lparr>passAtt := 1, passComp := 1, rec := 1\<rparr>],
              proto = None\<rparr>"
proof -
  let ?e = "mkEvent ''PASS_TD'' ''A'' (Some ''A'')"
  let ?c = "mkEvent ''PASS_COMP'' ''A'' (Some ''A'')"
  have h: "receiverId ?e = Some (playerId ?e)" "playerId ?e \<noteq> []" "type_e ?e = ''PASS_TD''"
    "playerId ?e = ''A''"
    by (simp_all add: mkEvent_def)
  have k: "receiverId ?c = Some (playerId ?c)" "playerId ?c \<noteq> []" "type_e ?c = ''PASS_COMP''"
    "playerId ?c = ''A''"
    by (simp_all add: mkEvent_def)
  have pl: "plainIds [] ([] @ ?e # [])"
    by (simp add: plainIds_def objectPrototypeKeys_def mkEvent_def)
  have pc: "plainIds [] ([] @ ?c # [])"
    by (simp add: plainIds_def objectPrototypeKeys_def mkEvent_def)
  have z: "computeStats [] ([] @ []) = Inr \<lparr>own = Map.empty, proto = None\<rparr>"
    by (simp add: run_defs)
  from self_targeted_pass [OF h(1) h(2) pl] h z
  have 1: "computeStats [] ([] @ ?e # [])
       = Inr \<lparr>own = [''A'' \<mapsto> emptyStats\<lparr>passAtt := 1, passComp := 1, passTD := 1, rec := 1,
                               recTD := 1, points := 12\<rparr>],
              proto = None\<rparr>"
    by (auto simp: Let_def bucketOr_def emptyStats_def)
  from self_targeted_pass [OF k(1) k(2) pc] k z
  have 2: "computeStats [] ([] @ ?c # [])
       = Inr \<lparr>own = [''A'' \<mapsto> emptyStats\<lparr>passAtt := 1, passComp := 1, rec := 1\<rparr>],
              proto = None\<rparr>"
    by (auto simp: Let_def bucketOr_def emptyStats_def)
  from h pl pc 1 2 show ?thesis by blast
qed

text \<open>
  Claim C10 as stated fails when the shared id is the empty string: \<^verbatim>\<open>ensure("")\<close> makes a
  bucket for the player, but \<^verbatim>\<open>if (e.receiverId)\<close> is false, so the receiver effect is
  skipped and the touchdown pass counts 6 points, not 12.
\<close>

theorem self_targeted_pass_counterexample:
  "receiverId (mkEvent ''PASS_TD'' [] (Some [])) = Some (playerId (mkEvent ''PASS_TD'' [] (Some [])))
   \<and> type_e (mkEvent ''PASS_TD'' [] (Some [])) = ''PASS_TD''
   \<and> computeStats [] [mkEvent ''PASS_TD'' [] (Some [])]
       = Inr \<lparr>own = [[] \<mapsto> emptyStats\<lparr>passAtt := 1, passComp := 1, passTD := 1, points := 6\<rparr>],
              proto = None\<rparr>
   \<and> emptyStats\<lparr>passAtt := 1, passComp := 1, passTD := 1, points := 6\<rparr>
       \<noteq> emptyStats\<lparr>passAtt := 1, passComp := 1, passTD := 1, rec := 1, recTD := 1, points := 12\<rparr>"
  by (simp add: run_defs)

end
